theory Spec2Isabelle
  imports Complex_Main
begin

section \<open>Values of the host language\<close>

text \<open>
  \<^verbatim>\<open>Array.prototype.slice(start, end)\<close>: a negative index counts from the end of the
  array, both indices are clamped to the array, and an omitted \<^verbatim>\<open>end\<close> (here
  \<open>None\<close>) is the length. The result is empty when the clamped end is not after
  the clamped start.
\<close>

definition slice :: "'a list \<Rightarrow> int \<Rightarrow> int option \<Rightarrow> 'a list" where
  "slice xs start stop =
     (let len = int (length xs);
          k = (if start < 0 then max (len + start) 0 else min start len);
          final = (case stop of
                     None \<Rightarrow> len
                   | Some e \<Rightarrow> if e < 0 then max (len + e) 0 else min e len)
      in take (nat (final - k)) (drop (nat k) xs))"

text \<open>
  A handler either returns or throws. An exception does not roll back what the
  handler did before, so both outcomes carry the state the handler leaves behind.
\<close>

datatype js_error = SyntaxError

datatype 'a outcome = Returned 'a | Threw js_error 'a

fun state_of :: "'a outcome \<Rightarrow> 'a" where
  "state_of (Returned s) = s"
| "state_of (Threw e s) = s"

fun thrown :: "'a outcome \<Rightarrow> js_error list" where
  "thrown (Returned s) = []"
| "thrown (Threw e s) = [e]"

section \<open>App: the two stream channels and the connection status\<close>

text \<open>
  The component state of \<^verbatim>\<open>App\<close>: the two \<^verbatim>\<open>useState\<close> buffers and the
  \<^verbatim>\<open>connectionStatus\<close> object, whose two keys \<^verbatim>\<open>waveforms\<close> and
  \<^verbatim>\<open>detections\<close> are the constructors of \<open>stream\<close>. The type \<open>'j\<close> is
  the type of parsed JSON values.
\<close>

datatype stream = Waveforms | Detections

record 'j app_state =
  waveformData :: "'j list"
  detections :: "'j list"
  connectionStatus :: "stream \<Rightarrow> string"

definition initial_state :: "'j app_state" where
  "initial_state =
     \<lparr>waveformData = [], detections = [],
      connectionStatus = (\<lambda>k. ''disconnected'')\<rparr>"

text \<open>The updater passed to \<^verbatim>\<open>setWaveformData\<close>: \<^verbatim>\<open>prev => [...prev.slice(-100), data]\<close>.\<close>

definition waveform_updater :: "'j \<Rightarrow> 'j list \<Rightarrow> 'j list" where
  "waveform_updater d prev = slice prev (- 100) None @ [d]"

text \<open>The updater passed to \<^verbatim>\<open>setDetections\<close>: \<^verbatim>\<open>prev => [data, ...prev.slice(0, 49)]\<close>.\<close>

definition detection_updater :: "'j \<Rightarrow> 'j list \<Rightarrow> 'j list" where
  "detection_updater d prev = d # slice prev 0 (Some 49)"

text \<open>
  The updater passed to \<^verbatim>\<open>setConnectionStatus\<close>:
  \<^verbatim>\<open>prev => ({ ...prev, waveforms: 'connected' })\<close> and its three siblings.
\<close>

definition status_updater :: "stream \<Rightarrow> string \<Rightarrow> (stream \<Rightarrow> string) \<Rightarrow> (stream \<Rightarrow> string)" where
  "status_updater k v prev = prev(k := v)"

text \<open>
  The six handlers installed by the effect of \<^verbatim>\<open>App\<close>. \<^verbatim>\<open>JSON.parse\<close> is a
  parameter: \<open>None\<close> is its \<^verbatim>\<open>SyntaxError\<close>. The message handlers have no
  \<^verbatim>\<open>try\<close>: the exception leaves the handler, before the state update is reached.
\<close>

definition waveformWs_onopen :: "'j app_state \<Rightarrow> 'j app_state outcome" where
  "waveformWs_onopen st =
     Returned (st\<lparr>connectionStatus := status_updater Waveforms ''connected'' (connectionStatus st)\<rparr>)"

definition waveformWs_onmessage :: "(string \<Rightarrow> 'j option) \<Rightarrow> 'j app_state \<Rightarrow> string \<Rightarrow> 'j app_state outcome" where
  "waveformWs_onmessage JSON_parse st raw =
     (case JSON_parse raw of
        None \<Rightarrow> Threw SyntaxError st
      | Some d \<Rightarrow> Returned (st\<lparr>waveformData := waveform_updater d (waveformData st)\<rparr>))"

definition waveformWs_onclose :: "'j app_state \<Rightarrow> 'j app_state outcome" where
  "waveformWs_onclose st =
     Returned (st\<lparr>connectionStatus := status_updater Waveforms ''disconnected'' (connectionStatus st)\<rparr>)"

definition detectionWs_onopen :: "'j app_state \<Rightarrow> 'j app_state outcome" where
  "detectionWs_onopen st =
     Returned (st\<lparr>connectionStatus := status_updater Detections ''connected'' (connectionStatus st)\<rparr>)"

definition detectionWs_onmessage :: "(string \<Rightarrow> 'j option) \<Rightarrow> 'j app_state \<Rightarrow> string \<Rightarrow> 'j app_state outcome" where
  "detectionWs_onmessage JSON_parse st raw =
     (case JSON_parse raw of
        None \<Rightarrow> Threw SyntaxError st
      | Some d \<Rightarrow> Returned (st\<lparr>detections := detection_updater d (detections st)\<rparr>))"

definition detectionWs_onclose :: "'j app_state \<Rightarrow> 'j app_state outcome" where
  "detectionWs_onclose st =
     Returned (st\<lparr>connectionStatus := status_updater Detections ''disconnected'' (connectionStatus st)\<rparr>)"

text \<open>
  What a socket delivers, and the handler the host calls for it. The host is taken
  to do what a browser does with an exception that leaves a handler: it reports
  the exception and goes on with the next event, from the state the handler left.
  \<open>run\<close> returns the final state and the exceptions reported on the way.
\<close>

datatype ws_event = Open | Message string | Close

fun dispatch :: "(string \<Rightarrow> 'j option) \<Rightarrow> 'j app_state \<Rightarrow> stream \<times> ws_event \<Rightarrow> 'j app_state outcome" where
  "dispatch JSON_parse st (Waveforms, Open) = waveformWs_onopen st"
| "dispatch JSON_parse st (Waveforms, Message raw) = waveformWs_onmessage JSON_parse st raw"
| "dispatch JSON_parse st (Waveforms, Close) = waveformWs_onclose st"
| "dispatch JSON_parse st (Detections, Open) = detectionWs_onopen st"
| "dispatch JSON_parse st (Detections, Message raw) = detectionWs_onmessage JSON_parse st raw"
| "dispatch JSON_parse st (Detections, Close) = detectionWs_onclose st"

fun run :: "(string \<Rightarrow> 'j option) \<Rightarrow> 'j app_state \<Rightarrow> (stream \<times> ws_event) list \<Rightarrow> 'j app_state \<times> js_error list" where
  "run JSON_parse st [] = (st, [])"
| "run JSON_parse st (ev # evs) =
     (let r = dispatch JSON_parse st ev;
          (st', errs) = run JSON_parse (state_of r) evs
      in (st', thrown r @ errs))"

text \<open>
  The waveform part of what \<^verbatim>\<open>App\<close> renders: the chart of the last buffer entry,
  or the placeholder while the buffer is empty.
\<close>

datatype 'j waveform_display = WaveformChart_of 'j | Waiting_for_waveform_data

definition waveform_display :: "'j app_state \<Rightarrow> 'j waveform_display" where
  "waveform_display st =
     (if length (waveformData st) > 0
      then WaveformChart_of (waveformData st ! (length (waveformData st) - 1))
      else Waiting_for_waveform_data)"

text \<open>
  For stating the properties of a run: the payloads of one stream that parsed, in
  arrival order, and the status written by the last lifecycle event of one stream.
\<close>

fun pushed :: "(string \<Rightarrow> 'j option) \<Rightarrow> stream \<Rightarrow> (stream \<times> ws_event) list \<Rightarrow> 'j list" where
  "pushed JSON_parse k [] = []"
| "pushed JSON_parse k ((k', Message raw) # evs) =
     (case JSON_parse raw of
        Some d \<Rightarrow> (if k' = k then [d] else []) @ pushed JSON_parse k evs
      | None \<Rightarrow> pushed JSON_parse k evs)"
| "pushed JSON_parse k (ev # evs) = pushed JSON_parse k evs"

fun lifecycle_status :: "ws_event \<Rightarrow> string option" where
  "lifecycle_status Open = Some ''connected''"
| "lifecycle_status Close = Some ''disconnected''"
| "lifecycle_status (Message raw) = None"

fun last_lifecycle :: "stream \<Rightarrow> (stream \<times> ws_event) list \<Rightarrow> string option" where
  "last_lifecycle k [] = None"
| "last_lifecycle k ((k', e) # evs) =
     (case last_lifecycle k evs of
        Some v \<Rightarrow> Some v
      | None \<Rightarrow> if k' = k then lifecycle_status e else None)"

section \<open>WaveformChart: the drawing effect\<close>

text \<open>
  Numbers. A finite number is a real, and zero has no sign. The operations of this
  section give the exact result, without the rounding of binary64; the rounded
  operations, which are those of the program, follow in the next section. The values
  that are not finite are kept, since \<^verbatim>\<open>Math.max()\<close> of no arguments is
  \<^verbatim>\<open>-Infinity\<close> and a division by zero does not throw.
\<close>

datatype num = Num real | PosInfinity | NegInfinity | NaN

fun js_div :: "num \<Rightarrow> num \<Rightarrow> num" where
  "js_div (Num a) (Num b) =
     (if b = 0 then (if a = 0 then NaN else if 0 < a then PosInfinity else NegInfinity)
      else Num (a / b))"
| "js_div (Num a) PosInfinity = Num 0"
| "js_div (Num a) NegInfinity = Num 0"
| "js_div PosInfinity (Num b) = (if 0 \<le> b then PosInfinity else NegInfinity)"
| "js_div NegInfinity (Num b) = (if 0 \<le> b then NegInfinity else PosInfinity)"
| "js_div a b = NaN"

fun js_mul :: "num \<Rightarrow> num \<Rightarrow> num" where
  "js_mul (Num a) (Num b) = Num (a * b)"
| "js_mul (Num a) PosInfinity = (if a = 0 then NaN else if 0 < a then PosInfinity else NegInfinity)"
| "js_mul (Num a) NegInfinity = (if a = 0 then NaN else if 0 < a then NegInfinity else PosInfinity)"
| "js_mul PosInfinity (Num b) = (if b = 0 then NaN else if 0 < b then PosInfinity else NegInfinity)"
| "js_mul NegInfinity (Num b) = (if b = 0 then NaN else if 0 < b then NegInfinity else PosInfinity)"
| "js_mul PosInfinity PosInfinity = PosInfinity"
| "js_mul PosInfinity NegInfinity = NegInfinity"
| "js_mul NegInfinity PosInfinity = NegInfinity"
| "js_mul NegInfinity NegInfinity = PosInfinity"
| "js_mul a b = NaN"

fun js_sub :: "num \<Rightarrow> num \<Rightarrow> num" where
  "js_sub (Num a) (Num b) = Num (a - b)"
| "js_sub (Num a) PosInfinity = NegInfinity"
| "js_sub (Num a) NegInfinity = PosInfinity"
| "js_sub PosInfinity (Num b) = PosInfinity"
| "js_sub NegInfinity (Num b) = NegInfinity"
| "js_sub PosInfinity NegInfinity = PosInfinity"
| "js_sub NegInfinity PosInfinity = NegInfinity"
| "js_sub a b = NaN"

text \<open>\<^verbatim>\<open>a || b\<close> on numbers: \<^verbatim>\<open>0\<close> and \<^verbatim>\<open>NaN\<close> are falsy, every other number is truthy.\<close>

fun falsy :: "num \<Rightarrow> bool" where
  "falsy (Num a) = (a = 0)"
| "falsy NaN = True"
| "falsy a = False"

definition js_or :: "num \<Rightarrow> num \<Rightarrow> num" where
  "js_or a b = (if falsy a then b else a)"

text \<open>
  \<^verbatim>\<open>Math.max(...xs)\<close>: the running maximum starts at \<^verbatim>\<open>-Infinity\<close>, which is
  the result for no arguments.
\<close>

fun js_max :: "num \<Rightarrow> real \<Rightarrow> num" where
  "js_max (Num a) x = Num (max a x)"
| "js_max NegInfinity x = Num x"
| "js_max PosInfinity x = PosInfinity"
| "js_max NaN x = NaN"

definition Math_max :: "real list \<Rightarrow> num" where
  "Math_max xs = foldl js_max NegInfinity xs"

text \<open>A message of the waveform stream, and the operations of the 2D context the effect calls.\<close>

record station_id =
  network :: string
  station :: string
  channel :: string

record waveform_sample =
  station_of :: "station_id option"
  sampling_rate :: real
  event_id :: "string option"
  data :: "real list option"



text \<open>
  The body of the effect from \<^verbatim>\<open>// Draw waveform\<close> on, over
  \<^verbatim>\<open>waveformData = data.data.slice(0, 500)\<close>: the divisor \<^verbatim>\<open>(maxAmplitude || 1)\<close>,
  the scale, and the point the \<^verbatim>\<open>forEach\<close> callback computes for one index.
\<close>

definition maxAmplitude :: "real list \<Rightarrow> num" where
  "maxAmplitude waveformData' = Math_max (map abs waveformData')"

definition divisor :: "real list \<Rightarrow> num" where
  "divisor waveformData' = js_or (maxAmplitude waveformData') (Num 1)"

definition scale_of :: "real \<Rightarrow> real list \<Rightarrow> num" where
  "scale_of height waveformData' = js_div (Num ((height / 2) * 0.8)) (divisor waveformData')"

definition step_of :: "real \<Rightarrow> real list \<Rightarrow> num" where
  "step_of width waveformData' = js_div (Num width) (Num (real (length waveformData')))"

definition point :: "num \<Rightarrow> num \<Rightarrow> real \<Rightarrow> nat \<times> real \<Rightarrow> num \<times> num" where
  "point step scale height iv =
     (js_mul (Num (real (fst iv))) step,
      js_sub (Num (height / 2)) (js_mul (Num (snd iv)) scale))"

definition waveform_points :: "real \<Rightarrow> real \<Rightarrow> real list \<Rightarrow> (num \<times> num) list" where
  "waveform_points width height samples =
     (let waveformData' = slice samples 0 (Some 500);
          step = step_of width waveformData';
          scale = scale_of height waveformData'
      in map (point step scale height) (enumerate 0 waveformData'))"




section \<open>WaveformChart: the same arithmetic in binary64\<close>

text \<open>
  The numbers of the program are IEEE 754 binary64 values, and every division,
  multiplication and subtraction rounds its exact result to the nearest of them,
  to the one with an even significand when two are equally near. \<open>expo n a\<close>
  is the binary exponent of a positive \<open>a\<close>, found in at most \<open>n\<close> steps; 1100
  steps cover the binary64 range. Below the exponent \<open>-1022\<close> the spacing of
  the values stays \<open>2\<^sup>-\<^sup>1\<^sup>0\<^sup>7\<^sup>4\<close> (subnormal numbers, down to zero), and a result
  that rounds to \<open>2\<^sup>1\<^sup>0\<^sup>2\<^sup>4\<close> or more is an infinity. Zero has no sign here either.
\<close>

fun expo :: "nat \<Rightarrow> real \<Rightarrow> int" where
  "expo 0 a = 0"
| "expo (Suc n) a =
     (if 2 \<le> a then expo n (a / 2) + 1
      else if a < 1 then expo n (a * 2) - 1
      else 0)"

definition round_half_even :: "real \<Rightarrow> int" where
  "round_half_even x =
     (let f = \<lfloor>x\<rfloor>; r = x - of_int f
      in if r < 1 / 2 then f
         else if 1 / 2 < r then f + 1
         else if even f then f else f + 1)"

definition round64 :: "real \<Rightarrow> num" where
  "round64 x =
     (if x = 0 then Num 0
      else
        (let a = \<bar>x\<bar>;
             e = max (expo 1100 a) (- 1022);
             ulp = 2 powi (e - 52);
             r = of_int (round_half_even (a / ulp)) * ulp
         in if 2 powi 1024 \<le> r then (if 0 < x then PosInfinity else NegInfinity)
            else Num (if 0 < x then r else - r)))"

fun round_num :: "num \<Rightarrow> num" where
  "round_num (Num x) = round64 x"
| "round_num PosInfinity = PosInfinity"
| "round_num NegInfinity = NegInfinity"
| "round_num NaN = NaN"

definition div64 :: "num \<Rightarrow> num \<Rightarrow> num" where
  "div64 a b = round_num (js_div a b)"

definition mul64 :: "num \<Rightarrow> num \<Rightarrow> num" where
  "mul64 a b = round_num (js_mul a b)"

definition sub64 :: "num \<Rightarrow> num \<Rightarrow> num" where
  "sub64 a b = round_num (js_sub a b)"

text \<open>
  The scale, the step and the points as the program computes them: the body of the
  effect again, with the binary64 operations, in the order of evaluation of
  \<^verbatim>\<open>(height / 2) * 0.8 / (maxAmplitude || 1)\<close>, \<^verbatim>\<open>index * step\<close> and
  \<^verbatim>\<open>height / 2 - value * scale\<close>. The literal \<^verbatim>\<open>0.8\<close> is the binary64 value
  nearest to it. \<^verbatim>\<open>Math.abs\<close> and \<^verbatim>\<open>Math.max\<close> do not round, so the divisor is
  the one above. The samples, the width and the height are binary64 values already.
\<close>

definition scale_of_binary64 :: "real \<Rightarrow> real list \<Rightarrow> num" where
  "scale_of_binary64 height waveformData' =
     div64 (mul64 (div64 (Num height) (Num 2)) (round64 0.8)) (divisor waveformData')"

definition step_of_binary64 :: "real \<Rightarrow> real list \<Rightarrow> num" where
  "step_of_binary64 width waveformData' = div64 (Num width) (Num (real (length waveformData')))"

definition point_binary64 :: "num \<Rightarrow> num \<Rightarrow> real \<Rightarrow> nat \<times> real \<Rightarrow> num \<times> num" where
  "point_binary64 step scale height iv =
     (mul64 (Num (real (fst iv))) step,
      sub64 (div64 (Num height) (Num 2)) (mul64 (Num (snd iv)) scale))"

definition waveform_points_binary64 :: "real \<Rightarrow> real \<Rightarrow> real list \<Rightarrow> (num \<times> num) list" where
  "waveform_points_binary64 width height samples =
     (let waveformData' = slice samples 0 (Some 500);
          step = step_of_binary64 width waveformData';
          scale = scale_of_binary64 height waveformData'
      in map (point_binary64 step scale height) (enumerate 0 waveformData'))"

text \<open>
  For stating how far two renderings may differ: a sample is moderate when it is
  zero or its magnitude lies between \<open>2\<^sup>-\<^sup>5\<^sup>0\<^sup>0\<close> and \<open>2\<^sup>5\<^sup>0\<^sup>0\<close>, which keeps every
  intermediate result of the 800 by 300 canvas away from overflow and underflow;
  \<open>exact_y\<close> is the value of \<open>H/2 - v * scale\<close> on that canvas without any
  rounding, \<open>150 - v * (120 / divisor)\<close>.
\<close>

definition moderate :: "real \<Rightarrow> bool" where
  "moderate v = (v = 0 \<or> (2 powi (- 500) \<le> \<bar>v\<bar> \<and> \<bar>v\<bar> \<le> 2 powi 500))"

definition exact_y :: "real list \<Rightarrow> real \<Rightarrow> real" where
  "exact_y waveformData' v =
     150 - v * (120 / (if Max (abs ` set waveformData') = 0 then 1 else Max (abs ` set waveformData')))"

section \<open>DetectionCard\<close>

text \<open>
  \<^verbatim>\<open>Number.prototype.toFixed(f)\<close> on a finite number below \<open>10\<^sup>2\<^sup>1\<close> in absolute
  value: the sign, then the integer \<open>n\<close> nearest to \<open>x * 10\<^sup>f\<close> (the larger one
  of two equally near), written in decimal with at least \<open>f + 1\<close> digits and a
  point before the last \<open>f\<close> of them.
\<close>

definition digit_char :: "nat \<Rightarrow> char" where
  "digit_char d = ''0123456789'' ! d"

fun digits :: "nat \<Rightarrow> string" where
  "digits n = (if n < 10 then [digit_char n] else digits (n div 10) @ [digit_char (n mod 10)])"

definition toFixed :: "real \<Rightarrow> nat \<Rightarrow> string" where
  "toFixed x f =
     (let s = (if x < 0 then ''-'' else []);
          x' = (if x < 0 then - x else x);
          n = nat \<lfloor>x' * 10 ^ f + 1 / 2\<rfloor>;
          m = digits n;
          m' = (if f \<noteq> 0 \<and> length m \<le> f then replicate (f + 1 - length m) CHR ''0'' @ m else m);
          k = length m'
      in if f \<noteq> 0 then s @ take (k - f) m' @ ''.'' @ drop (k - f) m' else s @ m')"

text \<open>
  A message of the detection stream. \<^verbatim>\<open>models\<close> is an object: its entries in key
  order, the keys distinct. A field the component tests for absence is an option.
\<close>

record pick =
  phase :: string
  probability :: real

record model_result =
  detected :: bool
  confidence :: real
  picks :: "pick list option"

record comparison_obj =
  agreement :: "bool option"
  confidence_diff :: "real option"

record detection_event =
  event_id :: "string option"
  models :: "(string \<times> model_result) list option"
  comparison :: "comparison_obj option"

text \<open>
  What the component returns, as far as it is a function of the event: the class
  names and the texts. The time of day in the header depends on the locale and is
  left out, as are the pictographs before the status and badge texts and the label
  before the confidence difference. The products by 100 that are formatted are
  exact here, where the program rounds them to binary64 first.
\<close>

record model_block =
  model_heading :: string
  status_class :: string
  status_text :: string
  confidence_text :: string
  pick_badges :: "string list option"

record card =
  card_class :: string
  event_text :: string
  badge_class :: string
  badge_text :: string
  models_comparison :: "model_block list"
  comparison_stats :: "string option"

text \<open>The value of \<^verbatim>\<open>comparison.agreement\<close> as a condition: \<^verbatim>\<open>undefined\<close> is falsy.\<close>

fun truthy :: "bool option \<Rightarrow> bool" where
  "truthy (Some b) = b"
| "truthy None = False"

definition pick_badge :: "pick \<Rightarrow> string" where
  "pick_badge p = phase p @ '': '' @ toFixed (probability p * 100) 0 @ ''%''"

definition model_result_block :: "string \<times> model_result \<Rightarrow> model_block" where
  "model_result_block entry =
     (let modelName = fst entry; result = snd entry
      in \<lparr>model_heading = modelName,
          status_class = ''detection-status '' @ (if detected result then ''detected'' else ''not-detected''),
          status_text = (if detected result then ''DETECTED'' else ''No Detection''),
          confidence_text = ''Confidence: '' @ toFixed (confidence result * 100) 1 @ ''%'',
          pick_badges =
            (case picks result of
               None \<Rightarrow> None
             | Some ps \<Rightarrow> if length ps > 0 then Some (map pick_badge ps) else None)\<rparr>)"

definition DetectionCard :: "detection_event \<Rightarrow> card" where
  "DetectionCard detection =
     (let models' = (case models detection of None \<Rightarrow> [] | Some m \<Rightarrow> m);
          comparison' = (case comparison detection of
                           None \<Rightarrow> \<lparr>agreement = None, confidence_diff = None\<rparr>
                         | Some c \<Rightarrow> c)
      in \<lparr>card_class = ''detection-card '' @
            (if truthy (agreement comparison') then ''agreement'' else ''disagreement''),
          event_text = ''Event: '' @
            (case event_id detection of None \<Rightarrow> [] | Some e \<Rightarrow> slice e 0 (Some 8)) @ ''...'',
          badge_class = ''agreement-badge '' @
            (if truthy (agreement comparison') then ''agree'' else ''disagree''),
          badge_text = (if truthy (agreement comparison') then ''Agreement'' else ''Disagreement''),
          models_comparison = map model_result_block models',
          comparison_stats =
            (case confidence_diff comparison' of
               None \<Rightarrow> None
             | Some diff \<Rightarrow> Some (toFixed (diff * 100) 1 @ ''%''))\<rparr>)"

text \<open>The event of the second concrete scenario.\<close>

definition scenario_2 :: detection_event where
  "scenario_2 =
     \<lparr>event_id = None,
      models = Some
        [(''modelA'', \<lparr>detected = True, confidence = 0.92,
                       picks = Some [\<lparr>phase = ''P'', probability = 0.8\<rparr>]\<rparr>),
         (''modelB'', \<lparr>detected = False, confidence = 0.3, picks = Some []\<rparr>)],
      comparison = Some \<lparr>agreement = Some False, confidence_diff = Some 0.62\<rparr>\<rparr>"

section \<open>The detections table and its hourly aggregate\<close>

text \<open>
  A row of the view \<^verbatim>\<open>detection_stats_hourly\<close> and a row of the table
  \<^verbatim>\<open>detections\<close>. A timestamp is a number of microseconds since
  2000-01-01 00:00. A column that may be \<^verbatim>\<open>NULL\<close> is an option; so are \<^verbatim>\<open>SUM\<close>
  and \<^verbatim>\<open>AVG\<close>, which are \<^verbatim>\<open>NULL\<close> over no rows. Averages are exact.
\<close>

record hourly_stats =
  bucket :: int
  model_name :: string
  total_detections :: int
  positive_detections :: "int option"
  avg_confidence :: "real option"
  avg_processing_time :: "real option"

record detection_record =
  id' :: string
  event_id :: string
  model_name :: string
  detected :: bool
  confidence :: real
  threshold :: real
  processing_time_ms :: real
  picks :: "string option"
  metadata :: "string option"
  agreement :: "bool option"
  confidence_diff :: "real option"
  created_at :: int

definition hour :: int where
  "hour = 3600000000"

text \<open>
  \<^verbatim>\<open>time_bucket(width, ts)\<close>: the start of the bucket of \<open>ts\<close>, the buckets being
  aligned on Monday 2000-01-03 00:00.
\<close>

definition time_bucket_origin :: int where
  "time_bucket_origin = 48 * hour"

definition time_bucket :: "int \<Rightarrow> int \<Rightarrow> int" where
  "time_bucket width ts =
     time_bucket_origin + ((ts - time_bucket_origin) div width) * width"

definition sql_COUNT :: "'a list \<Rightarrow> int" where
  "sql_COUNT xs = int (length xs)"

definition sql_SUM :: "int list \<Rightarrow> int option" where
  "sql_SUM xs = (if xs = [] then None else Some (sum_list xs))"

definition sql_AVG :: "real list \<Rightarrow> real option" where
  "sql_AVG xs = (if xs = [] then None else Some (sum_list xs / real (length xs)))"

text \<open>
  The query of the view: \<^verbatim>\<open>GROUP BY bucket, model_name\<close> gives one row for every
  pair that occurs in the table, computed from the rows of that pair.
\<close>

definition group_key :: "detection_record \<Rightarrow> int \<times> string" where
  "group_key r = (time_bucket hour (created_at r), model_name r)"

definition group_stats :: "detection_record list \<Rightarrow> int \<times> string \<Rightarrow> hourly_stats" where
  "group_stats rows k =
     (let grp = filter (\<lambda>r. group_key r = k) rows
      in \<lparr>bucket = fst k,
          hourly_stats.model_name = snd k,
          total_detections = sql_COUNT grp,
          positive_detections = sql_SUM (map (\<lambda>r. if detected r then 1 else 0) grp),
          avg_confidence = sql_AVG (map confidence grp),
          avg_processing_time = sql_AVG (map processing_time_ms grp)\<rparr>)"

definition detection_stats_hourly :: "detection_record list \<Rightarrow> hourly_stats list" where
  "detection_stats_hourly rows = map (group_stats rows) (remdups (map group_key rows))"

text \<open>
  The view is created \<^verbatim>\<open>WITH NO DATA\<close>. A refresh over a window replaces, in the
  materialised rows, the buckets that lie inside the window by what the query
  gives for them, and keeps the others.
\<close>

definition in_window :: "int \<Rightarrow> int \<Rightarrow> hourly_stats \<Rightarrow> bool" where
  "in_window window_start window_end s =
     (window_start \<le> bucket s \<and> bucket s + hour \<le> window_end)"

definition refresh_continuous_aggregate ::
  "int \<Rightarrow> int \<Rightarrow> detection_record list \<Rightarrow> hourly_stats list \<Rightarrow> hourly_stats list" where
  "refresh_continuous_aggregate window_start window_end rows materialized =
     filter (\<lambda>s. \<not> in_window window_start window_end s) materialized
     @ filter (in_window window_start window_end) (detection_stats_hourly rows)"

text \<open>Three rows of one hour and one model, as in the third concrete scenario.\<close>

definition scenario_3 :: "detection_record list" where
  "scenario_3 =
     [\<lparr>id' = ''a'', event_id = ''e1'', model_name = ''modelA'', detected = True,
       confidence = 0.9, threshold = 0.5, processing_time_ms = 10,
       picks = None, metadata = None, agreement = None, confidence_diff = None,
       created_at = 100 * hour + 5\<rparr>,
      \<lparr>id' = ''b'', event_id = ''e2'', model_name = ''modelA'', detected = True,
       confidence = 0.7, threshold = 0.5, processing_time_ms = 20,
       picks = None, metadata = None, agreement = None, confidence_diff = None,
       created_at = 100 * hour + 1800000000\<rparr>,
      \<lparr>id' = ''c'', event_id = ''e3'', model_name = ''modelA'', detected = False,
       confidence = 0.2, threshold = 0.5, processing_time_ms = 30,
       picks = None, metadata = None, agreement = None, confidence_diff = None,
       created_at = 101 * hour - 1\<rparr>]"

section \<open>Properties of the stream channels\<close>

lemma slice_last_100: "slice xs (- 100) None = drop (length xs - 100) xs"
  by (simp add: slice_def Let_def max_def nat_diff_distrib)

lemma slice_first_49: "slice xs 0 (Some 49) = take 49 xs"
  by (simp add: slice_def Let_def min_def)

lemma waveform_updater_drop:
  "waveform_updater d prev = drop (length prev - 100) prev @ [d]"
  by (simp add: waveform_updater_def slice_last_100)

lemma detection_updater_take:
  "detection_updater d prev = d # take 49 prev"
  by (simp add: detection_updater_def slice_first_49)

lemma last_window:
  "drop (length (drop (length xs - 100) xs @ y # ys) - 101) (drop (length xs - 100) xs @ y # ys)
     = drop (length (xs @ y # ys) - 101) (xs @ y # ys)"
  by (cases "length xs \<le> 100") (simp_all add: add.commute)

lemma fst_run_Cons:
  "fst (run P st (ev # evs)) = fst (run P (state_of (dispatch P st ev)) evs)"
  by (simp add: Let_def split: prod.splits)

lemma run_waveformData:
  "length (waveformData st) \<le> 101 \<Longrightarrow>
   waveformData (fst (run P st evs)) =
     drop (length (waveformData st @ pushed P Waveforms evs) - 101)
       (waveformData st @ pushed P Waveforms evs)"
proof (induction evs arbitrary: st)
  case Nil
  then show ?case by simp
next
  case (Cons ev evs)
  obtain k e where ev: "ev = (k, e)" by (cases ev)
  show ?case
  proof (cases "\<exists>raw d. k = Waveforms \<and> e = Message raw \<and> P raw = Some d")
    case True
    then obtain raw d where h: "k = Waveforms" "e = Message raw" "P raw = Some d" by blast
    let ?st = "st\<lparr>waveformData := waveform_updater d (waveformData st)\<rparr>"
    have len: "length (waveformData ?st) \<le> 101"
      by (simp add: waveform_updater_drop)
    have "waveformData (fst (run P st (ev # evs))) = waveformData (fst (run P ?st evs))"
      using h ev by (simp add: fst_run_Cons waveformWs_onmessage_def del: run.simps)
    also have "\<dots> = drop (length (waveformData ?st @ pushed P Waveforms evs) - 101)
       (waveformData ?st @ pushed P Waveforms evs)"
      using Cons.IH [OF len] .
    also have "\<dots> = drop (length (waveformData st @ pushed P Waveforms (ev # evs)) - 101)
       (waveformData st @ pushed P Waveforms (ev # evs))"
      using h ev last_window [of "waveformData st" d "pushed P Waveforms evs"]
      by (simp add: waveform_updater_drop)
    finally show ?thesis .
  next
    case False
    have w: "waveformData (state_of (dispatch P st ev)) = waveformData st"
      using False ev
      by (cases k; cases e)
         (auto simp: waveformWs_onopen_def waveformWs_onclose_def detectionWs_onopen_def
            detectionWs_onclose_def waveformWs_onmessage_def detectionWs_onmessage_def
            split: option.splits)
    have p: "pushed P Waveforms (ev # evs) = pushed P Waveforms evs"
      using False ev by (cases k; cases e) (auto split: option.splits)
    have "waveformData (fst (run P st (ev # evs))) = waveformData (fst (run P (state_of (dispatch P st ev)) evs))"
      by (simp only: fst_run_Cons)
    then show ?thesis
      using Cons.IH [of "state_of (dispatch P st ev)"] Cons.prems w p by simp
  qed
qed

lemma dispatch_other_waveformData:
  "\<not> (\<exists>raw d. ev = (Waveforms, Message raw) \<and> P raw = Some d) \<Longrightarrow>
   waveformData (state_of (dispatch P st ev)) = waveformData st"
  by (cases ev; cases "fst ev"; cases "snd ev")
     (auto simp: waveformWs_onopen_def waveformWs_onclose_def detectionWs_onopen_def
        detectionWs_onclose_def waveformWs_onmessage_def detectionWs_onmessage_def
        split: option.splits)

lemma dispatch_other_detections:
  "\<not> (\<exists>raw d. ev = (Detections, Message raw) \<and> P raw = Some d) \<Longrightarrow>
   detections (state_of (dispatch P st ev)) = detections st"
  by (cases ev; cases "fst ev"; cases "snd ev")
     (auto simp: waveformWs_onopen_def waveformWs_onclose_def detectionWs_onopen_def
        detectionWs_onclose_def waveformWs_onmessage_def detectionWs_onmessage_def
        split: option.splits)

lemma pushed_other:
  "\<not> (\<exists>raw d. ev = (k, Message raw) \<and> P raw = Some d) \<Longrightarrow>
   pushed P k (ev # evs) = pushed P k evs"
  by (cases ev; cases "snd ev") (auto split: option.splits)

lemma first_window:
  "take 50 (ys @ d # take 49 xs) = take 50 (ys @ d # xs)"
  by (cases "length ys < 50") (simp_all add: take_Cons')

lemma run_detections:
  "length (detections st) \<le> 50 \<Longrightarrow>
   detections (fst (run P st evs)) = take 50 (rev (pushed P Detections evs) @ detections st)"
proof (induction evs arbitrary: st)
  case Nil
  then show ?case by simp
next
  case (Cons ev evs)
  show ?case
  proof (cases "\<exists>raw d. ev = (Detections, Message raw) \<and> P raw = Some d")
    case True
    then obtain raw d where h: "ev = (Detections, Message raw)" "P raw = Some d" by blast
    let ?st = "st\<lparr>detections := detection_updater d (detections st)\<rparr>"
    have len: "length (detections ?st) \<le> 50"
      by (simp add: detection_updater_take)
    have "detections (fst (run P st (ev # evs))) = detections (fst (run P ?st evs))"
      using h by (simp add: fst_run_Cons detectionWs_onmessage_def del: run.simps)
    also have "\<dots> = take 50 (rev (pushed P Detections evs) @ detections ?st)"
      using Cons.IH [OF len] .
    also have "\<dots> = take 50 (rev (pushed P Detections (ev # evs)) @ detections st)"
      using h first_window [of "rev (pushed P Detections evs)" d "detections st"]
      by (simp add: detection_updater_take)
    finally show ?thesis .
  next
    case False
    show ?thesis
      using Cons.IH [of "state_of (dispatch P st ev)"] Cons.prems
        dispatch_other_detections [OF False] pushed_other [OF False]
      by (simp add: fst_run_Cons del: run.simps)
  qed
qed

lemma dispatch_connectionStatus:
  "connectionStatus (state_of (dispatch P st (k', e))) k =
     (case (if k' = k then lifecycle_status e else None) of
        None \<Rightarrow> connectionStatus st k | Some v \<Rightarrow> v)"
  by (cases k'; cases e; cases k)
     (auto simp: waveformWs_onopen_def waveformWs_onclose_def detectionWs_onopen_def
        detectionWs_onclose_def waveformWs_onmessage_def detectionWs_onmessage_def
        status_updater_def split: option.splits)

lemma run_connectionStatus:
  "connectionStatus (fst (run P st evs)) k =
     (case last_lifecycle k evs of None \<Rightarrow> connectionStatus st k | Some v \<Rightarrow> v)"
proof (induction evs arbitrary: st)
  case Nil
  then show ?case by simp
next
  case (Cons ev evs)
  obtain k' e where ev: "ev = (k', e)" by (cases ev)
  show ?case
    using Cons.IH [of "state_of (dispatch P st ev)"] dispatch_connectionStatus [of P st k' e k]
    by (auto simp add: fst_run_Cons ev simp del: run.simps dispatch.simps
          split: option.splits if_splits)
qed

text \<open>
  Claim C1, as stated, fails: the message handlers do not contain the failure.
  \<^verbatim>\<open>JSON.parse\<close> throws inside them, they have no \<^verbatim>\<open>try\<close>, and the
  \<^verbatim>\<open>SyntaxError\<close> leaves the call on either channel.
\<close>

theorem malformed_payload_throws_counterexample:
  "waveformWs_onmessage (\<lambda>s. if s = ''1'' then Some (1::int) else None) initial_state ''{oops''
     = Threw SyntaxError initial_state \<and>
   detectionWs_onmessage (\<lambda>s. if s = ''1'' then Some (1::int) else None) initial_state ''{oops''
     = Threw SyntaxError initial_state"
  by (simp add: waveformWs_onmessage_def detectionWs_onmessage_def)

text \<open>
  Claim C1, amended. On a payload that \<^verbatim>\<open>JSON.parse\<close> rejects, the handler of
  either channel throws the \<^verbatim>\<open>SyntaxError\<close> before it reaches its state update:
  the state it leaves is the state it found, both buffers and the connection
  status (the channel is not marked closed). Called again on that state with a
  payload that parses, the handler pushes it as usual. What becomes of the
  exception is up to the host that called the handler.
\<close>

theorem malformed_payload_throws_before_update:
  assumes "JSON_parse raw = None"
  shows "waveformWs_onmessage JSON_parse st raw = Threw SyntaxError st \<and>
         detectionWs_onmessage JSON_parse st raw = Threw SyntaxError st \<and>
         (JSON_parse raw' = Some d \<longrightarrow>
            waveformWs_onmessage JSON_parse (state_of (waveformWs_onmessage JSON_parse st raw)) raw' =
              Returned (st\<lparr>waveformData := waveform_updater d (waveformData st)\<rparr>) \<and>
            detectionWs_onmessage JSON_parse (state_of (detectionWs_onmessage JSON_parse st raw)) raw' =
              Returned (st\<lparr>detections := detection_updater d (detections st)\<rparr>))"
  using assms by (simp add: waveformWs_onmessage_def detectionWs_onmessage_def)

theorem malformed_payload_throws_before_update_witness:
  "(\<lambda>s. if s = ''1'' then Some (1::int) else None) ''{oops'' = None \<and>
   (\<lambda>s. if s = ''1'' then Some (1::int) else None) ''1'' = Some 1 \<and>
   waveformWs_onmessage (\<lambda>s. if s = ''1'' then Some (1::int) else None) initial_state ''{oops''
     = Threw SyntaxError initial_state \<and>
   waveformWs_onmessage (\<lambda>s. if s = ''1'' then Some (1::int) else None)
       (state_of (waveformWs_onmessage (\<lambda>s. if s = ''1'' then Some (1::int) else None)
          initial_state ''{oops'')) ''1''
     = Returned (initial_state\<lparr>waveformData := [1]\<rparr>)"
  using malformed_payload_throws_before_update
    [where JSON_parse = "\<lambda>s. if s = ''1'' then Some (1::int) else None" and raw = "''{oops''"
       and st = initial_state and raw' = "''1''" and d = 1]
  by (simp add: waveformWs_onmessage_def waveform_updater_def slice_def initial_state_def)

text \<open>
  Claim C2. After any sequence of events from the initial state, the waveform
  buffer holds at most 101 entries, namely the last 101 payloads pushed on the
  waveform channel, and the chart \<^verbatim>\<open>App\<close> renders is the one of the payload
  pushed last (the placeholder while nothing has been pushed).
\<close>

theorem waveform_buffer_bounded_latest_rendered:
  "length (waveformData (fst (run JSON_parse initial_state evs))) \<le> 101 \<and>
   waveformData (fst (run JSON_parse initial_state evs)) =
     drop (length (pushed JSON_parse Waveforms evs) - 101) (pushed JSON_parse Waveforms evs) \<and>
   waveform_display (fst (run JSON_parse initial_state evs)) =
     (if pushed JSON_parse Waveforms evs = [] then Waiting_for_waveform_data
      else WaveformChart_of (last (pushed JSON_parse Waveforms evs)))"
proof -
  let ?ps = "pushed JSON_parse Waveforms evs"
  have w: "waveformData (fst (run JSON_parse initial_state evs)) = drop (length ?ps - 101) ?ps"
    using run_waveformData [of initial_state JSON_parse evs] by (simp add: initial_state_def)
  have l: "?ps \<noteq> [] \<Longrightarrow> drop (length ?ps - 101) ?ps \<noteq> []"
    by (cases ?ps) simp_all
  have "?ps \<noteq> [] \<Longrightarrow> drop (length ?ps - 101) ?ps ! (length (drop (length ?ps - 101) ?ps) - 1) = last ?ps"
    using l by (metis last_conv_nth last_drop length_drop length_greater_0_conv diff_less zero_less_numeral)
  then show ?thesis
    unfolding w waveform_display_def by auto
qed

theorem waveform_buffer_bounded_latest_rendered_witness:
  "waveformData (fst (run (\<lambda>s. if s = ''1'' then Some (1::int) else if s = ''2'' then Some 2 else None)
       initial_state
       [(Waveforms, Message ''1''), (Detections, Message ''1''), (Waveforms, Message ''2''),
        (Waveforms, Message ''?''), (Waveforms, Close)])) = [1, 2] \<and>
   waveform_display (fst (run (\<lambda>s. if s = ''1'' then Some (1::int) else if s = ''2'' then Some 2 else None)
       initial_state
       [(Waveforms, Message ''1''), (Detections, Message ''1''), (Waveforms, Message ''2''),
        (Waveforms, Message ''?''), (Waveforms, Close)])) = WaveformChart_of 2"
  using waveform_buffer_bounded_latest_rendered
    [of "\<lambda>s. if s = ''1'' then Some (1::int) else if s = ''2'' then Some 2 else None"
        "[(Waveforms, Message ''1''), (Detections, Message ''1''), (Waveforms, Message ''2''),
          (Waveforms, Message ''?''), (Waveforms, Close)]"]
  by simp

text \<open>
  Claim C3. After any sequence of events from the initial state, the detection
  buffer is the first 50 entries of the pushed payloads in reverse arrival order:
  at most 50 entries, the newest at index 0, the oldest evicted from the back.
\<close>

theorem detection_feed_bounded_newest_first:
  "detections (fst (run JSON_parse initial_state evs)) = take 50 (rev (pushed JSON_parse Detections evs)) \<and>
   length (detections (fst (run JSON_parse initial_state evs))) \<le> 50 \<and>
   (pushed JSON_parse Detections evs \<noteq> [] \<longrightarrow>
      detections (fst (run JSON_parse initial_state evs)) ! 0 = last (pushed JSON_parse Detections evs))"
proof -
  let ?ps = "pushed JSON_parse Detections evs"
  have w: "detections (fst (run JSON_parse initial_state evs)) = take 50 (rev ?ps)"
    using run_detections [of initial_state JSON_parse evs] by (simp add: initial_state_def)
  have "?ps \<noteq> [] \<Longrightarrow> take 50 (rev ?ps) ! 0 = last ?ps"
    by (simp add: hd_rev flip: hd_conv_nth)
  then show ?thesis
    unfolding w by simp
qed

theorem detection_feed_bounded_newest_first_witness:
  "pushed (\<lambda>s. if s = ''1'' then Some (1::int) else if s = ''2'' then Some 2 else None) Detections
       [(Detections, Message ''1''), (Waveforms, Message ''1''), (Detections, Message ''2'')] \<noteq> [] \<and>
   detections (fst (run (\<lambda>s. if s = ''1'' then Some (1::int) else if s = ''2'' then Some 2 else None)
       initial_state
       [(Detections, Message ''1''), (Waveforms, Message ''1''), (Detections, Message ''2'')])) = [2, 1] \<and>
   detections (fst (run (\<lambda>s. if s = ''1'' then Some (1::int) else if s = ''2'' then Some 2 else None)
       initial_state
       [(Detections, Message ''1''), (Waveforms, Message ''1''), (Detections, Message ''2'')])) ! 0 = 2"
  using detection_feed_bounded_newest_first
    [of "\<lambda>s. if s = ''1'' then Some (1::int) else if s = ''2'' then Some 2 else None"
        "[(Detections, Message ''1''), (Waveforms, Message ''1''), (Detections, Message ''2'')]"]
  by simp

text \<open>
  Claim C10. An open or a close on one stream returns the state with that
  stream's entry of the status object set to connected or disconnected, and
  nothing else changed; after any sequence of events the status of a stream is
  the one written by the last lifecycle event on that stream (the status before
  the sequence when there was none).
\<close>

theorem connection_status_last_event_wins:
  "dispatch JSON_parse st (k, Open) =
     Returned (st\<lparr>connectionStatus := (connectionStatus st)(k := ''connected'')\<rparr>) \<and>
   dispatch JSON_parse st (k, Close) =
     Returned (st\<lparr>connectionStatus := (connectionStatus st)(k := ''disconnected'')\<rparr>) \<and>
   connectionStatus (fst (run JSON_parse st evs)) k =
     (case last_lifecycle k evs of None \<Rightarrow> connectionStatus st k | Some v \<Rightarrow> v)"
proof -
  have "dispatch JSON_parse st (k, Open) =
     Returned (st\<lparr>connectionStatus := (connectionStatus st)(k := ''connected'')\<rparr>)"
    by (cases k) (simp_all add: waveformWs_onopen_def detectionWs_onopen_def status_updater_def)
  moreover have "dispatch JSON_parse st (k, Close) =
     Returned (st\<lparr>connectionStatus := (connectionStatus st)(k := ''disconnected'')\<rparr>)"
    by (cases k) (simp_all add: waveformWs_onclose_def detectionWs_onclose_def status_updater_def)
  ultimately show ?thesis
    by (simp only: run_connectionStatus)
qed

theorem connection_status_last_event_wins_witness:
  "connectionStatus (fst (run (\<lambda>s. None :: int option) initial_state
       [(Waveforms, Open), (Detections, Open), (Waveforms, Message ''{''), (Waveforms, Close)])) Waveforms
     = ''disconnected'' \<and>
   dispatch (\<lambda>s. None :: int option) initial_state (Waveforms, Open) =
     Returned (initial_state\<lparr>connectionStatus :=
       (connectionStatus (initial_state :: int app_state))(Waveforms := ''connected'')\<rparr>)"
  using connection_status_last_event_wins
    [of "\<lambda>s. None :: int option" initial_state Waveforms
        "[(Waveforms, Open), (Detections, Open), (Waveforms, Message ''{''), (Waveforms, Close)]"]
  by (simp del: run.simps dispatch.simps)

section \<open>Properties of the drawing effect\<close>

lemma slice_first_500: "slice xs 0 (Some 500) = take 500 xs"
  by (simp add: slice_def Let_def min_def)

lemma foldl_js_max_Num: "foldl js_max (Num a) xs = Num (Max (insert a (set xs)))"
proof (induction xs arbitrary: a)
  case Nil
  then show ?case by simp
next
  case (Cons x xs)
  have "Max (insert (max a x) (set xs)) = Max (insert a (insert x (set xs)))"
    by (cases "set xs = {}") (simp_all add: max.assoc)
  then show ?case using Cons.IH [of "max a x"] by simp
qed

lemma Math_max_nonempty: "xs \<noteq> [] \<Longrightarrow> Math_max xs = Num (Max (set xs))"
  by (cases xs) (simp_all add: Math_max_def foldl_js_max_Num)

lemma Math_max_Nil: "Math_max [] = NegInfinity"
  by (simp add: Math_max_def)

lemma maxAmplitude_nonempty: "wd \<noteq> [] \<Longrightarrow> maxAmplitude wd = Num (Max (abs ` set wd))"
  by (simp add: maxAmplitude_def Math_max_nonempty)

lemma divisor_nonempty:
  "wd \<noteq> [] \<Longrightarrow>
   divisor wd = Num (if Max (abs ` set wd) = 0 then 1 else Max (abs ` set wd))"
  by (simp add: divisor_def maxAmplitude_nonempty js_or_def)

lemma divisor_Nil: "divisor [] = NegInfinity"
  by (simp add: divisor_def maxAmplitude_def Math_max_Nil js_or_def)

lemma scale_of_nonempty:
  "wd \<noteq> [] \<Longrightarrow>
   scale_of H wd = Num ((H / 2) * 0.8 / (if Max (abs ` set wd) = 0 then 1 else Max (abs ` set wd)))"
  by (simp add: scale_of_def divisor_nonempty)

lemma scale_of_Nil: "scale_of H [] = Num 0"
  by (simp add: scale_of_def divisor_Nil)

lemma step_of_nonempty: "wd \<noteq> [] \<Longrightarrow> step_of W wd = Num (W / real (length wd))"
  by (simp add: step_of_def)

lemma waveform_points_Nil: "waveform_points W H [] = []"
  by (simp add: waveform_points_def slice_first_500)

lemma waveform_points_eq:
  "scale_of H (take 500 vs) = Num s \<Longrightarrow> vs \<noteq> [] \<Longrightarrow>
   waveform_points W H vs =
     map (\<lambda>iv. (Num (real (fst iv) * (W / real (length (take 500 vs)))), Num (H / 2 - snd iv * s)))
       (enumerate 0 (take 500 vs))"
  by (simp add: waveform_points_def slice_first_500 Let_def point_def step_of_nonempty)

lemma length_waveform_points: "length (waveform_points W H vs) = min 500 (length vs)"
  by (simp add: waveform_points_def slice_first_500 Let_def min.commute)

lemma waveform_points_nth:
  assumes "scale_of H (take 500 vs) = Num s" and "i < min 500 (length vs)"
  shows "waveform_points W H vs ! i =
     (Num (real i * (W / real (min 500 (length vs)))), Num (H / 2 - vs ! i * s))"
proof -
  have ne: "vs \<noteq> []" using assms(2) by auto
  have i: "i < length (take 500 vs)" using assms(2) by simp
  show ?thesis
    using i assms(2) by (simp add: waveform_points_eq [OF assms(1) ne] nth_enumerate_eq min.commute)
qed


text \<open>
  Claim C4, as stated, fails on the empty sample set: \<^verbatim>\<open>Math.max()\<close> is
  \<^verbatim>\<open>-Infinity\<close>, which is truthy, so the divisor is \<^verbatim>\<open>-Infinity\<close> and not 1.
\<close>

theorem divisor_empty_counterexample:
  "divisor [] = NegInfinity \<and> divisor [] \<noteq> Num 1"
  by (simp add: divisor_Nil)

text \<open>
  Claim C4, amended. For a non-empty truncated sample set the divisor is the
  largest absolute value when that is not zero, and 1 when it is zero. For the
  empty set the divisor is \<^verbatim>\<open>-Infinity\<close>: the scale is zero, without a
  division by zero, and no point is computed from it.
  For an all-zero input every point of the path is finite and lies at \<open>y = H/2\<close>,
  and there is one point for each of the first 500 samples.
\<close>

theorem divisor_fallback_and_flat_line:
  "(wd \<noteq> [] \<longrightarrow>
      divisor wd = Num (if Max (abs ` set wd) = 0 then 1 else Max (abs ` set wd))) \<and>
   divisor [] = NegInfinity \<and> scale_of H [] = Num 0 \<and>
   waveform_points W H [] = [] \<and>
   ((\<forall>v \<in> set vs. v = 0) \<longrightarrow>
      length (waveform_points W H vs) = min 500 (length vs) \<and>
      (\<forall>i < min 500 (length vs).
         waveform_points W H vs ! i =
           (Num (real i * (W / real (min 500 (length vs)))), Num (H / 2))))"
proof -
  have flat: "waveform_points W H vs ! i =
           (Num (real i * (W / real (min 500 (length vs)))), Num (H / 2))"
    if z: "\<forall>v \<in> set vs. v = 0" and i: "i < min 500 (length vs)" for i
  proof -
    have ne: "take 500 vs \<noteq> []" using i by auto
    obtain s where s: "scale_of H (take 500 vs) = Num s"
      using scale_of_nonempty [OF ne] by blast
    have "vs ! i = 0" using z i by simp
    then show ?thesis using waveform_points_nth [OF s i] by simp
  qed
  show ?thesis
    using flat
    by (simp add: divisor_nonempty divisor_Nil scale_of_Nil waveform_points_Nil length_waveform_points)
qed

theorem divisor_fallback_and_flat_line_witness:
  "[2, - 3] \<noteq> ([] :: real list) \<and> divisor [2, - 3] = Num 3 \<and>
   [0, 0] \<noteq> ([] :: real list) \<and> divisor [0, 0] = Num 1 \<and>
   waveform_points 800 300 [0, 0] = [(Num 0, Num 150), (Num 400, Num 150)]"
proof -
  have a: "divisor [2, - 3] = Num 3"
    using divisor_fallback_and_flat_line [where wd = "[2, - 3]" and W = 800 and H = 300 and vs = "[0, 0]"] by simp
  have b: "divisor [0, 0] = Num 1"
    using divisor_fallback_and_flat_line [where wd = "[0, 0]" and W = 800 and H = 300 and vs = "[0, 0]"] by simp
  have c: "\<forall>i<2. waveform_points 800 300 [0, 0] ! i = (Num (real i * (800 / 2)), Num (300 / 2))"
    and l: "length (waveform_points 800 300 [0, 0]) = 2"
    using divisor_fallback_and_flat_line [where wd = "[0, 0]" and W = 800 and H = 300 and vs = "[0, 0]"] by simp_all
  have "waveform_points 800 300 [0, 0] = [(Num 0, Num 150), (Num 400, Num 150)]"
    by (rule nth_equalityI) (use c l in \<open>auto simp: less_Suc_eq numeral_2_eq_2 nth_Cons'\<close>)
  then show ?thesis using a b by simp
qed

lemma Max_abs_scaled:
  assumes "0 < (c::real)" and "wd \<noteq> []"
  shows "Max (abs ` set (map ((*) c) wd)) = c * Max (abs ` set wd)"
proof -
  have "mono ((*) c)" using assms(1) by (auto simp: mono_def intro: mult_left_mono)
  then have "c * Max (abs ` set wd) = Max ((*) c ` abs ` set wd)"
    using assms(2) by (intro mono_Max_commute) simp_all
  also have "(*) c ` abs ` set wd = abs ` set (map ((*) c) wd)"
    using assms(1) by (auto simp: image_iff abs_mult)
  finally show ?thesis by simp
qed

lemma scaled_term:
  assumes "0 < (c::real)" and "wd \<noteq> []" and "v \<in> set wd"
  shows "c * v * (K / (if Max (abs ` set (map ((*) c) wd)) = 0 then 1 else Max (abs ` set (map ((*) c) wd))))
       = v * (K / (if Max (abs ` set wd) = 0 then 1 else Max (abs ` set wd)))"
proof (cases "Max (abs ` set wd) = 0")
  case True
  have "\<bar>v\<bar> \<le> Max (abs ` set wd)" using assms(3) by simp
  then have "v = 0" unfolding True by linarith
  then show ?thesis by simp
next
  case False
  then show ?thesis
    unfolding Max_abs_scaled [OF assms(1,2)] using assms(1) by simp
qed





section \<open>Properties of the drawing effect in binary64\<close>

lemma two_powi_pos: "0 < (2::real) powi e"
  by (simp add: zero_less_power_int)

lemma two_powi_Suc: "(2::real) powi (e + 1) = 2 * 2 powi e"
  by (simp add: power_int_add_1')

lemma two_powi_pred: "2 * (2::real) powi (e - 1) = 2 powi e"
  using two_powi_Suc [of "e - 1"] by simp

lemma expo_bounds:
  "2 powi (- int n) \<le> a \<Longrightarrow> a < 2 powi (int n + 1) \<Longrightarrow>
   2 powi (expo n a) \<le> a \<and> a < 2 powi (expo n a + 1)"
proof (induction n arbitrary: a)
  case 0
  then show ?case by simp
next
  case (Suc n)
  have "- int (Suc n) = - int n - 1" by simp
  then have lo: "2 * (2::real) powi (- int (Suc n)) = 2 powi (- int n)"
    by (simp only: two_powi_pred)
  have hi: "(2::real) powi (int (Suc n) + 1) = 2 * 2 powi (int n + 1)"
    using two_powi_Suc [of "int n + 1"] by (simp add: algebra_simps)
  have le1: "(2::real) powi (- int n) \<le> 1"
    using power_int_increasing [of "- int n" 0 "2::real"] by simp
  have ge2: "(2::real) \<le> 2 powi (int n + 1)"
    using power_int_increasing [of 1 "int n + 1" "2::real"] by simp
  show ?case
  proof (cases "2 \<le> a")
    case True
    have "2 powi (- int n) \<le> a / 2" using True le1 by simp
    moreover have "a / 2 < 2 powi (int n + 1)" using Suc.prems(2) hi by simp
    ultimately have ih: "2 powi (expo n (a / 2)) \<le> a / 2 \<and> a / 2 < 2 powi (expo n (a / 2) + 1)"
      by (rule Suc.IH)
    show ?thesis
      using True ih two_powi_Suc [of "expo n (a / 2)"] two_powi_Suc [of "expo n (a / 2) + 1"]
      by (simp add: algebra_simps)
  next
    case False
    show ?thesis
    proof (cases "a < 1")
      case True
      have "2 powi (- int n) \<le> a * 2" using Suc.prems(1) lo by simp
      moreover have "a * 2 < 2 powi (int n + 1)" using True ge2 by simp
      ultimately have ih: "2 powi (expo n (a * 2)) \<le> a * 2 \<and> a * 2 < 2 powi (expo n (a * 2) + 1)"
        by (rule Suc.IH)
      have "2 powi (expo n (a * 2) - 1) \<le> a \<and> a < 2 powi (expo n (a * 2) - 1 + 1)"
        using ih two_powi_pred [of "expo n (a * 2)"] two_powi_Suc [of "expo n (a * 2)"]
        by simp
      then show ?thesis
        using True \<open>\<not> 2 \<le> a\<close> by simp
    next
      case False
      then show ?thesis using \<open>\<not> 2 \<le> a\<close> by simp
    qed
  qed
qed

lemma round_half_even_error: "\<bar>of_int (round_half_even x) - x\<bar> \<le> 1 / 2"
proof -
  have "of_int \<lfloor>x\<rfloor> \<le> x" "x < of_int \<lfloor>x\<rfloor> + 1" by linarith+
  then show ?thesis
    by (auto simp: round_half_even_def Let_def)
qed


lemma round64_rel_error:
  assumes lo: "2 powi (- 1022) \<le> \<bar>z\<bar>" and hi: "\<bar>z\<bar> < 2 powi 1023"
  shows "\<exists>d. \<bar>d\<bar> \<le> 2 powi (- 53) \<and> round64 z = Num (z * (1 + d))"
proof -
  define a where "a = \<bar>z\<bar>"
  define e where "e = expo 1100 a"
  define ulp :: real where "ulp = 2 powi (e - 52)"
  define r where "r = of_int (round_half_even (a / ulp)) * ulp"
  have apos: "0 < a" using lo two_powi_pos [of "- 1022"] unfolding a_def by linarith
  have z0: "z \<noteq> 0" using apos unfolding a_def by auto
  have "(2::real) powi (- int 1100) \<le> 2 powi (- 1022)"
    by (intro power_int_increasing) simp_all
  then have p1: "2 powi (- int 1100) \<le> a" using lo unfolding a_def by linarith
  have "(2::real) powi 1023 \<le> 2 powi (int 1100 + 1)"
    by (intro power_int_increasing) simp_all
  then have p2: "a < 2 powi (int 1100 + 1)" using hi unfolding a_def by linarith
  have B: "2 powi e \<le> a" "a < 2 powi (e + 1)"
    using expo_bounds [OF p1 p2] unfolding e_def by simp_all
  have e_lo: "- 1022 \<le> e"
  proof (rule ccontr)
    assume "\<not> - 1022 \<le> e"
    then have "e + 1 \<le> - 1022" by simp
    then have "(2::real) powi (e + 1) \<le> 2 powi (- 1022)"
      by (intro power_int_increasing) simp_all
    then show False using B(2) lo unfolding a_def by linarith
  qed
  have upos: "0 < ulp" unfolding ulp_def by (rule two_powi_pos)
  have "\<bar>of_int (round_half_even (a / ulp)) - a / ulp\<bar> \<le> 1 / 2"
    by (rule round_half_even_error)
  then have "\<bar>of_int (round_half_even (a / ulp)) - a / ulp\<bar> * ulp \<le> 1 / 2 * ulp"
    using upos by (intro mult_right_mono) simp_all
  moreover have "\<bar>of_int (round_half_even (a / ulp)) - a / ulp\<bar> * ulp = \<bar>r - a\<bar>"
  proof -
    have "(of_int (round_half_even (a / ulp)) - a / ulp) * ulp = r - a"
      using upos unfolding r_def by (simp add: field_simps)
    then show ?thesis
      using upos abs_mult_pos [of ulp "of_int (round_half_even (a / ulp)) - a / ulp"] by simp
  qed
  ultimately have err: "\<bar>r - a\<bar> \<le> ulp / 2" by simp
  have "e - 52 - 1 = e + (- 53)" by simp
  then have "2 * (2::real) powi (e + (- 53)) = 2 powi (e - 52)"
    using two_powi_pred [of "e - 52"] by (simp only:)
  moreover have "(2::real) powi (e + (- 53)) = 2 powi e * 2 powi (- 53)"
    by (rule power_int_add) simp
  ultimately have "ulp / 2 = 2 powi e * 2 powi (- 53)"
    unfolding ulp_def by linarith
  also have "\<dots> \<le> a * 2 powi (- 53)"
    using B(1) two_powi_pos [of "- 53"] by (intro mult_right_mono) simp_all
  finally have half: "ulp / 2 \<le> a * 2 powi (- 53)" .
  have small: "(2::real) powi (- 53) \<le> 1"
    using power_int_increasing [of "- 53" 0 "2::real"] by simp
  have "r \<le> a + a * 2 powi (- 53)" using err half by linarith
  also have "\<dots> \<le> a + a * 1" using apos small by (intro add_left_mono mult_left_mono) simp_all
  also have "\<dots> < 2 * 2 powi 1023" using hi unfolding a_def by simp
  also have "\<dots> = 2 powi 1024" using two_powi_Suc [of 1023] by simp
  finally have nov: "\<not> 2 powi 1024 \<le> r" by simp
  define d where "d = (r - a) / a"
  have "\<bar>d\<bar> = \<bar>r - a\<bar> / a" unfolding d_def using apos by (simp add: abs_divide)
  also have "\<dots> \<le> (a * 2 powi (- 53)) / a"
    using err half apos by (intro divide_right_mono) linarith+
  also have "\<dots> = 2 powi (- 53)" using apos by simp
  finally have dle: "\<bar>d\<bar> \<le> 2 powi (- 53)" .
  have rd: "r = a * (1 + d)" unfolding d_def using apos by (simp add: field_simps)
  have m: "max (expo 1100 a) (- 1022) = e" using e_lo unfolding e_def by simp
  have "round64 z = Num (if 0 < z then r else - r)"
    using z0 nov unfolding round64_def Let_def a_def [symmetric] m ulp_def [symmetric] r_def [symmetric]
    by simp
  also have "(if 0 < z then r else - r) = z * (1 + d)"
    using z0 unfolding rd a_def by (cases "0 < z") simp_all
  finally show ?thesis using dle by blast
qed


lemma expo_numeral:
  "expo (numeral k) a =
     (if 2 \<le> a then expo (pred_numeral k) (a / 2) + 1
      else if a < 1 then expo (pred_numeral k) (a * 2) - 1
      else 0)"
  by (simp add: numeral_eq_Suc)

lemma round64_eval:
  assumes "0 < x" and "expo 1100 x = e" and "- 1022 \<le> e"
    and "round_half_even (x / 2 powi (e - 52)) = n"
    and "of_int n * 2 powi (e - 52) < (2::real) powi 1024"
  shows "round64 x = Num (of_int n * 2 powi (e - 52))"
proof -
  have x0: "(x = 0) = False" "\<bar>x\<bar> = x" using assms(1) by simp_all
  have m: "max e (- 1022) = e" using assms(3) by simp
  have nov: "((2::real) powi 1024 \<le> of_int n * 2 powi (e - 52)) = False"
    using assms(5) by simp
  show ?thesis
    by (simp only: round64_def Let_def x0 assms(2) m assms(4) nov assms(1) if_False if_True)
qed

lemma round64_150: "round64 (150) = Num (150)"
proof -
  have 1: "expo 1100 ((150)::real) = 7"
    by (simp add: expo_numeral)
  have 2: "round_half_even ((150) / 2 powi (7 - 52)) = 5277655813324800"
    by (simp add: round_half_even_def Let_def)
  have 3: "of_int 5277655813324800 * 2 powi (7 - 52) < (2::real) powi 1024"
    by simp
  show ?thesis
    using round64_eval [OF _ 1 _ 2 3] by simp
qed

lemma round64_0_8: "round64 (4 / 5) = Num (3602879701896397 / 4503599627370496)"
proof -
  have 1: "expo 1100 ((4 / 5)::real) = - 1"
    by (simp add: expo_numeral)
  have 2: "round_half_even ((4 / 5) / 2 powi (- 1 - 52)) = 7205759403792794"
    by (simp add: round_half_even_def Let_def)
  have 3: "of_int 7205759403792794 * 2 powi (- 1 - 52) < (2::real) powi 1024"
    by simp
  show ?thesis
    using round64_eval [OF _ 1 _ 2 3] by simp
qed

lemma round64_K: "round64 (270215977642229775 / 2251799813685248) = Num (120)"
proof -
  have 1: "expo 1100 ((270215977642229775 / 2251799813685248)::real) = 6"
    by (simp add: expo_numeral)
  have 2: "round_half_even ((270215977642229775 / 2251799813685248) / 2 powi (6 - 52)) = 8444249301319680"
    by (simp add: round_half_even_def Let_def)
  have 3: "of_int 8444249301319680 * 2 powi (6 - 52) < (2::real) powi 1024"
    by simp
  show ?thesis
    using round64_eval [OF _ 1 _ 2 3] by simp
qed

lemma round64_120_7: "round64 (120 / 7) = Num (4825285315039817 / 281474976710656)"
proof -
  have 1: "expo 1100 ((120 / 7)::real) = 4"
    by (simp add: expo_numeral)
  have 2: "round_half_even ((120 / 7) / 2 powi (4 - 52)) = 4825285315039817"
    by (simp add: round_half_even_def Let_def)
  have 3: "of_int 4825285315039817 * 2 powi (4 - 52) < (2::real) powi 1024"
    by simp
  show ?thesis
    using round64_eval [OF _ 1 _ 2 3] by simp
qed

lemma round64_p_5_7: "round64 (24126426575199085 / 281474976710656) = Num (6031606643799771 / 70368744177664)"
proof -
  have 1: "expo 1100 ((24126426575199085 / 281474976710656)::real) = 6"
    by (simp add: expo_numeral)
  have 2: "round_half_even ((24126426575199085 / 281474976710656) / 2 powi (6 - 52)) = 6031606643799771"
    by (simp add: round_half_even_def Let_def)
  have 3: "of_int 6031606643799771 * 2 powi (6 - 52) < (2::real) powi 1024"
    by simp
  show ?thesis
    using round64_eval [OF _ 1 _ 2 3] by simp
qed

lemma round64_y_5_7: "round64 (4523704982849829 / 70368744177664) = Num (4523704982849829 / 70368744177664)"
proof -
  have 1: "expo 1100 ((4523704982849829 / 70368744177664)::real) = 6"
    by (simp add: expo_numeral)
  have 2: "round_half_even ((4523704982849829 / 70368744177664) / 2 powi (6 - 52)) = 4523704982849829"
    by (simp add: round_half_even_def Let_def)
  have 3: "of_int 4523704982849829 * 2 powi (6 - 52) < (2::real) powi 1024"
    by simp
  show ?thesis
    using round64_eval [OF _ 1 _ 2 3] by simp
qed

lemma round64_120_21: "round64 (40 / 7) = Num (6433713753386423 / 1125899906842624)"
proof -
  have 1: "expo 1100 ((40 / 7)::real) = 2"
    by (simp add: expo_numeral)
  have 2: "round_half_even ((40 / 7) / 2 powi (2 - 52)) = 6433713753386423"
    by (simp add: round_half_even_def Let_def)
  have 3: "of_int 6433713753386423 * 2 powi (2 - 52) < (2::real) powi 1024"
    by simp
  show ?thesis
    using round64_eval [OF _ 1 _ 2 3] by simp
qed

lemma round64_p_15_21: "round64 (96505706300796345 / 1125899906842624) = Num (1507901660949943 / 17592186044416)"
proof -
  have 1: "expo 1100 ((96505706300796345 / 1125899906842624)::real) = 6"
    by (simp add: expo_numeral)
  have 2: "round_half_even ((96505706300796345 / 1125899906842624) / 2 powi (6 - 52)) = 6031606643799772"
    by (simp add: round_half_even_def Let_def)
  have 3: "of_int 6031606643799772 * 2 powi (6 - 52) < (2::real) powi 1024"
    by simp
  show ?thesis
    using round64_eval [OF _ 1 _ 2 3] by simp
qed

lemma round64_y_15_21: "round64 (1130926245712457 / 17592186044416) = Num (1130926245712457 / 17592186044416)"
proof -
  have 1: "expo 1100 ((1130926245712457 / 17592186044416)::real) = 6"
    by (simp add: expo_numeral)
  have 2: "round_half_even ((1130926245712457 / 17592186044416) / 2 powi (6 - 52)) = 4523704982849828"
    by (simp add: round_half_even_def Let_def)
  have 3: "of_int 4523704982849828 * 2 powi (6 - 52) < (2::real) powi 1024"
    by simp
  show ?thesis
    using round64_eval [OF _ 1 _ 2 3] by simp
qed



lemma half_height_300: "div64 (Num 300) (Num 2) = Num 150"
  by (simp add: div64_def round64_150)

lemma K_300: "mul64 (div64 (Num 300) (Num 2)) (round64 0.8) = Num 120"
  by (simp add: half_height_300 mul64_def round64_0_8 round64_K)

lemma y0_5_7:
  "snd (waveform_points_binary64 800 300 [5, 7] ! 0) = Num (4523704982849829 / 70368744177664)"
  by (simp add: waveform_points_binary64_def slice_def point_binary64_def scale_of_binary64_def
        Let_def round64_150 round64_0_8 round64_K divisor_def maxAmplitude_def Math_max_def
        js_or_def div64_def mul64_def sub64_def round64_120_7 round64_p_5_7 round64_y_5_7)

lemma y0_15_21:
  "snd (waveform_points_binary64 800 300 [15, 21] ! 0) = Num (1130926245712457 / 17592186044416)"
  by (simp add: waveform_points_binary64_def slice_def point_binary64_def scale_of_binary64_def
        Let_def round64_150 round64_0_8 round64_K divisor_def maxAmplitude_def Math_max_def
        js_or_def div64_def mul64_def sub64_def round64_120_21 round64_p_15_21 round64_y_15_21)

lemma round64_overflow:
  assumes lo: "2 powi 1024 \<le> x" and hi: "x < 2 powi 1101"
  shows "round64 x = PosInfinity"
proof -
  define e where "e = expo 1100 x"
  define ulp :: real where "ulp = 2 powi (e - 52)"
  define n where "n = round_half_even (x / ulp)"
  have xpos: "0 < x" using lo two_powi_pos [of 1024] by linarith
  have "(2::real) powi (- int 1100) \<le> 2 powi 1024"
    by (intro power_int_increasing) simp_all
  then have p1: "2 powi (- int 1100) \<le> x" using lo by linarith
  have p2: "x < 2 powi (int 1100 + 1)" using hi by simp
  have B: "2 powi e \<le> x" "x < 2 powi (e + 1)"
    using expo_bounds [OF p1 p2] unfolding e_def by simp_all
  have e_lo: "1024 \<le> e"
  proof (rule ccontr)
    assume "\<not> 1024 \<le> e"
    then have "e + 1 \<le> 1024" by simp
    then have "(2::real) powi (e + 1) \<le> 2 powi 1024"
      by (intro power_int_increasing) simp_all
    then show False using B(2) lo by linarith
  qed
  have upos: "0 < ulp" unfolding ulp_def by (rule two_powi_pos)
  have "(2::real) powi (e - 52 + 52) = 2 powi (e - 52) * 2 powi 52"
    by (rule power_int_add) simp
  then have ue: "ulp * 2 powi 52 = 2 powi e" unfolding ulp_def by simp
  have "2 powi 52 * ulp \<le> x" using B(1) ue by (simp add: mult.commute)
  then have q: "2 powi 52 \<le> x / ulp" using upos by (simp add: pos_le_divide_eq)
  have "\<bar>of_int n - x / ulp\<bar> \<le> 1 / 2" unfolding n_def by (rule round_half_even_error)
  then have "(2::real) powi 52 - 1 / 2 \<le> of_int n" using q by linarith
  then have "(4503599627370496::real) - 1 / 2 \<le> of_int n" by simp
  then have "4503599627370496 \<le> n" by linarith
  then have "(4503599627370496::real) \<le> of_int n" by linarith
  then have "(2::real) powi 52 \<le> of_int n" by simp
  then have "2 powi 52 * ulp \<le> of_int n * ulp" using upos by (intro mult_right_mono) simp_all
  then have "2 powi e \<le> of_int n * ulp" using ue by (simp add: mult.commute)
  moreover have "(2::real) powi 1024 \<le> 2 powi e"
    using e_lo by (intro power_int_increasing) simp_all
  ultimately have ov: "2 powi 1024 \<le> of_int n * ulp" by linarith
  have m: "max (expo 1100 x) (- 1022) = e" using e_lo unfolding e_def by simp
  have x0: "(x = 0) = False" "\<bar>x\<bar> = x" "(0 < x) = True" using xpos by simp_all
  show ?thesis
    unfolding round64_def Let_def x0 m ulp_def [symmetric] n_def [symmetric]
    using ov by simp
qed

lemma y0_overflow:
  "snd (waveform_points_binary64 800 300 [2 powi (- 1070)] ! 0) = NegInfinity"
proof -
  have "round64 (120 / 2 powi (- 1070)) = PosInfinity"
    by (rule round64_overflow) simp_all
  then show ?thesis
    by (simp add: waveform_points_binary64_def slice_def point_binary64_def scale_of_binary64_def
        Let_def round64_150 round64_0_8 round64_K divisor_def maxAmplitude_def Math_max_def
        js_or_def div64_def mul64_def sub64_def)
qed

lemma round64_120: "round64 (120) = Num (120)"
proof -
  have 1: "expo 1100 ((120)::real) = 6"
    by (simp add: expo_numeral)
  have 2: "round_half_even ((120) / 2 powi (6 - 52)) = 8444249301319680"
    by (simp add: round_half_even_def Let_def)
  have 3: "of_int 8444249301319680 * 2 powi (6 - 52) < (2::real) powi 1024"
    by simp
  show ?thesis
    using round64_eval [OF _ 1 _ 2 3] by simp
qed

lemma round64_30: "round64 (30) = Num (30)"
proof -
  have 1: "expo 1100 ((30)::real) = 4"
    by (simp add: expo_numeral)
  have 2: "round_half_even ((30) / 2 powi (4 - 52)) = 8444249301319680"
    by (simp add: round_half_even_def Let_def)
  have 3: "of_int 8444249301319680 * 2 powi (4 - 52) < (2::real) powi 1024"
    by simp
  show ?thesis
    using round64_eval [OF _ 1 _ 2 3] by simp
qed

lemma y0_one:
  "snd (waveform_points_binary64 800 300 (map ((*) (2 powi 1070)) [2 powi (- 1070)]) ! 0) = Num 30"
  by (simp add: waveform_points_binary64_def slice_def point_binary64_def scale_of_binary64_def
        Let_def round64_150 round64_0_8 round64_K round64_120 round64_30 divisor_def
        maxAmplitude_def Math_max_def js_or_def div64_def mul64_def sub64_def)

text \<open>
  Claim C6, as stated, fails: in the arithmetic of the program the samples 5, 7 and
  the same samples multiplied by 3 do not give the same points. The first \<open>y\<close>
  is 64.28571428571429 for the one and 64.28571428571428 for the other, one unit
  in the last place apart. And the single sample \<open>2\<^sup>-\<^sup>1\<^sup>0\<^sup>7\<^sup>0\<close> makes the scale
  overflow, so that its point is at \<open>y = -Infinity\<close>, where the same sample
  multiplied by \<open>2\<^sup>1\<^sup>0\<^sup>7\<^sup>0\<close> is drawn at \<open>y = 30\<close>.
\<close>

theorem rendering_not_scale_invariant_counterexample:
  "snd (waveform_points_binary64 800 300 [5, 7] ! 0) = Num (4523704982849829 / 70368744177664) \<and>
   snd (waveform_points_binary64 800 300 (map ((*) 3) [5, 7]) ! 0)
     = Num (1130926245712457 / 17592186044416) \<and>
   waveform_points_binary64 800 300 (map ((*) 3) [5, 7]) \<noteq> waveform_points_binary64 800 300 [5, 7] \<and>
   snd (waveform_points_binary64 800 300 [2 powi (- 1070)] ! 0) = NegInfinity \<and>
   snd (waveform_points_binary64 800 300 (map ((*) (2 powi 1070)) [2 powi (- 1070)]) ! 0) = Num 30"
proof -
  have a: "snd (waveform_points_binary64 800 300 (map ((*) 3) [5, 7]) ! 0)
     = Num (1130926245712457 / 17592186044416)"
    using y0_15_21 by simp
  have "snd (waveform_points_binary64 800 300 (map ((*) 3) [5, 7]) ! 0)
     \<noteq> snd (waveform_points_binary64 800 300 [5, 7] ! 0)"
    unfolding a y0_5_7 by simp
  then have "waveform_points_binary64 800 300 (map ((*) 3) [5, 7]) \<noteq> waveform_points_binary64 800 300 [5, 7]"
    by auto
  then show ?thesis using a y0_5_7 y0_overflow y0_one by blast
qed

lemma prod_err:
  fixes t d1 d2 u :: real
  assumes "\<bar>t\<bar> \<le> 120" "\<bar>d1\<bar> \<le> u" "\<bar>d2\<bar> \<le> u" "u \<le> 1"
  shows "\<bar>t * (1 + d1) * (1 + d2) - t\<bar> \<le> 360 * u"
proof -
  have u0: "0 \<le> u" using assms(2) by linarith
  have "\<bar>d1 * d2\<bar> \<le> u * u"
    unfolding abs_mult using assms(2,3) by (intro mult_mono) simp_all
  also have "\<dots> \<le> u * 1" using u0 assms(4) by (intro mult_left_mono) simp_all
  finally have "\<bar>d1 * d2\<bar> \<le> u" by simp
  then have s: "\<bar>d1 + d2 + d1 * d2\<bar> \<le> 3 * u" using assms(2,3) by linarith
  have "t * (1 + d1) * (1 + d2) - t = t * (d1 + d2 + d1 * d2)" by (simp add: algebra_simps)
  then have "\<bar>t * (1 + d1) * (1 + d2) - t\<bar> = \<bar>t\<bar> * \<bar>d1 + d2 + d1 * d2\<bar>"
    by (simp only: abs_mult)
  also have "\<dots> \<le> 120 * (3 * u)"
    using assms(1) s u0 by (intro mult_mono) simp_all
  finally show ?thesis by simp
qed

lemma final_err:
  fixes t p d3 u :: real
  assumes "\<bar>p - t\<bar> \<le> 360 * u" "\<bar>d3\<bar> \<le> u" "\<bar>t\<bar> \<le> 120" "u \<le> 1 / 360"
  shows "\<bar>(150 - p) * (1 + d3) - (150 - t)\<bar> \<le> 631 * u"
proof -
  have u0: "0 \<le> u" using assms(2) by linarith
  have b: "\<bar>150 - p\<bar> \<le> 271" using assms(1,3,4) by linarith
  have "\<bar>(150 - p) * d3\<bar> \<le> 271 * u"
    unfolding abs_mult using b assms(2) by (intro mult_mono) simp_all
  moreover have "(150 - p) * (1 + d3) - (150 - t) = (150 - p) * d3 + (t - p)"
    by (simp add: algebra_simps)
  ultimately show ?thesis using assms(1) by linarith
qed

lemma y_accuracy:
  assumes D: "2 powi (- 500) \<le> D" "D \<le> 2 powi 500"
    and dv: "divisor wd = Num D"
    and v: "v = 0 \<or> 2 powi (- 500) \<le> \<bar>v\<bar>" "\<bar>v\<bar> \<le> D"
  shows "\<exists>y. sub64 (div64 (Num 300) (Num 2)) (mul64 (Num v) (scale_of_binary64 300 wd)) = Num y \<and>
             \<bar>y - (150 - v * (120 / D))\<bar> \<le> 2 powi (- 43)"
proof -
  define lo :: real where "lo = 2 powi (- 500)"
  define hi :: real where "hi = 2 powi 500"
  define m :: real where "m = 2 powi (- 1022)"
  define top :: real where "top = 2 powi 1023"
  define u :: real where "u = 2 powi (- 53)"
  have F: "0 < lo" "lo \<le> 1" "1 / hi = lo" "1 / lo = hi" "m \<le> lo * lo" "128 * hi \<le> top"
    "m \<le> 1" "512 \<le> top" "0 < hi"
    unfolding lo_def hi_def m_def top_def by simp_all
  have U: "0 < u" "u \<le> 1 / 1024" "631 * u \<le> 2 powi (- 43)"
    unfolding u_def by simp_all
  have Dpos: "0 < D" using D(1) F(1) unfolding lo_def by linarith
  have "1 / hi \<le> 1 / D" using D(2) Dpos unfolding hi_def by (intro divide_left_mono) simp_all
  then have q1: "120 * lo \<le> 120 / D" unfolding F(3) by simp
  have "1 / D \<le> 1 / lo" using D(1) F(1) Dpos unfolding lo_def by (intro divide_left_mono) simp_all
  then have q2: "120 / D \<le> 120 * hi" unfolding F(4) by simp
  have "lo * lo \<le> lo * 1" using F(1,2) by (intro mult_left_mono) simp_all
  then have "m \<le> 120 / D" using F(5) F(1) q1 by linarith
  then have n1: "m \<le> \<bar>120 / D\<bar>" by linarith
  have n1': "\<bar>120 / D\<bar> < top" using q2 F(6,9) Dpos by simp
  obtain d1 where d1: "\<bar>d1\<bar> \<le> u" "round64 (120 / D) = Num (120 / D * (1 + d1))"
    using round64_rel_error [of "120 / D"] n1 n1' unfolding m_def top_def u_def by blast
  define s where "s = 120 / D * (1 + d1)"
  have sc: "scale_of_binary64 300 wd = Num s"
    unfolding scale_of_binary64_def K_300 dv s_def using Dpos d1(2) by (simp add: div64_def)
  have d1b: "1 / 2 \<le> 1 + d1" "1 + d1 \<le> 2" using d1(1) U(2) by linarith+
  define w where "w = 120 / D"
  have wq: "120 * lo \<le> w" "0 \<le> w" using q1 F(1) unfolding w_def by linarith+
  have "w * (1 / 2) \<le> w * (1 + d1)"
    using d1b(1) wq(2) by (intro mult_left_mono)
  then have "lo \<le> w * (1 + d1)" using wq(1) F(1) by linarith
  then have s_lo: "lo \<le> s" unfolding s_def w_def .
  have spos: "0 < s" using s_lo F(1) by linarith
  have Ds: "D * s = 120 * (1 + d1)" unfolding s_def using Dpos by simp
  have vs_hi: "\<bar>v\<bar> * s \<le> 240"
  proof -
    have "\<bar>v\<bar> * s \<le> D * s" using v(2) spos by (intro mult_right_mono) simp_all
    then show ?thesis unfolding Ds using d1b(2) by (simp add: algebra_simps)
  qed
  have "\<exists>d2. \<bar>d2\<bar> \<le> u \<and> round64 (v * s) = Num (v * s * (1 + d2))"
  proof (cases "v = 0")
    case True
    have "\<bar>0::real\<bar> \<le> u \<and> round64 (v * s) = Num (v * s * (1 + 0))"
      using True U(1) by (simp add: round64_def)
    then show ?thesis by blast
  next
    case False
    then have vlo: "lo \<le> \<bar>v\<bar>" using v(1) unfolding lo_def by simp
    have "lo * lo \<le> \<bar>v\<bar> * s" using vlo s_lo F(1) by (intro mult_mono) simp_all
    then have "m \<le> \<bar>v * s\<bar>" using F(5) spos by (simp add: abs_mult)
    moreover have "\<bar>v * s\<bar> < top" using vs_hi F(8) spos by (simp add: abs_mult)
    ultimately show ?thesis
      using round64_rel_error [of "v * s"] unfolding m_def top_def u_def by blast
  qed
  then obtain d2 where d2: "\<bar>d2\<bar> \<le> u" "round64 (v * s) = Num (v * s * (1 + d2))" by blast
  define t where "t = v * (120 / D)"
  define p where "p = v * s * (1 + d2)"
  have pt: "p = t * (1 + d1) * (1 + d2)" unfolding p_def t_def s_def by simp
  have tb: "\<bar>t\<bar> \<le> 120"
  proof -
    have "\<bar>t\<bar> = \<bar>v\<bar> * (120 / D)" unfolding t_def using Dpos by (simp add: abs_mult)
    also have "\<dots> \<le> D * (120 / D)" using v(2) Dpos by (intro mult_right_mono) simp_all
    also have "\<dots> = 120" using Dpos by simp
    finally show ?thesis .
  qed
  have e1: "\<bar>p - t\<bar> \<le> 360 * u"
    unfolding pt using tb d1(1) d2(1) U(2) by (intro prod_err) simp_all
  have "29 \<le> 150 - p" "150 - p \<le> 271" using e1 tb U(2) by linarith+
  then have "m \<le> \<bar>150 - p\<bar>" "\<bar>150 - p\<bar> < top" using F(7,8) by linarith+
  then obtain d3 where d3: "\<bar>d3\<bar> \<le> u" "round64 (150 - p) = Num ((150 - p) * (1 + d3))"
    using round64_rel_error [of "150 - p"] unfolding m_def top_def u_def by blast
  have val: "sub64 (div64 (Num 300) (Num 2)) (mul64 (Num v) (scale_of_binary64 300 wd))
               = Num ((150 - p) * (1 + d3))"
    unfolding half_height_300 sc using d2(2) d3(2) by (simp add: p_def mul64_def sub64_def)
  have "\<bar>(150 - p) * (1 + d3) - (150 - t)\<bar> \<le> 631 * u"
    using e1 d3(1) tb U(2) by (intro final_err) simp_all
  then have "\<bar>(150 - p) * (1 + d3) - (150 - v * (120 / D))\<bar> \<le> 2 powi (- 43)"
    using U(3) unfolding t_def by linarith
  then show ?thesis using val by blast
qed


lemma length_waveform_points_binary64:
  "length (waveform_points_binary64 W H vs) = min 500 (length vs)"
  by (simp add: waveform_points_binary64_def slice_first_500 Let_def min.commute)

lemma waveform_points_binary64_nth:
  assumes "i < min 500 (length vs)"
  shows "waveform_points_binary64 W H vs ! i =
     (mul64 (Num (real i)) (step_of_binary64 W (take 500 vs)),
      sub64 (div64 (Num H) (Num 2)) (mul64 (Num (vs ! i)) (scale_of_binary64 H (take 500 vs))))"
  using assms
  by (simp add: waveform_points_binary64_def slice_first_500 Let_def point_binary64_def
        nth_enumerate_eq)

lemma step_of_binary64_scaled:
  "step_of_binary64 W (take 500 (map ((*) c) vs)) = step_of_binary64 W (take 500 vs)"
  by (simp add: step_of_binary64_def)

lemma moderate_divisor:
  assumes ne: "wd \<noteq> []" and m: "list_all moderate wd"
  defines "D \<equiv> (if Max (abs ` set wd) = 0 then 1 else Max (abs ` set wd))"
  shows "divisor wd = Num D" and "2 powi (- 500) \<le> D" and "D \<le> 2 powi 500"
    and "\<forall>v \<in> set wd. \<bar>v\<bar> \<le> D"
proof -
  show "divisor wd = Num D" unfolding D_def by (rule divisor_nonempty [OF ne])
  have fin: "finite (abs ` set wd)" "abs ` set wd \<noteq> {}" using ne by simp_all
  have one: "(2::real) powi (- 500) \<le> 1" "(1::real) \<le> 2 powi 500" by simp_all
  have le: "\<bar>v\<bar> \<le> Max (abs ` set wd)" if "v \<in> set wd" for v
    using that by simp
  show "\<forall>v \<in> set wd. \<bar>v\<bar> \<le> D"
  proof
    fix v assume v: "v \<in> set wd"
    show "\<bar>v\<bar> \<le> D"
    proof (cases "Max (abs ` set wd) = 0")
      case True
      then show ?thesis using le [OF v] unfolding D_def by simp
    next
      case False
      then show ?thesis using le [OF v] unfolding D_def by simp
    qed
  qed
  show "2 powi (- 500) \<le> D" and "D \<le> 2 powi 500"
  proof -
    have "2 powi (- 500) \<le> D \<and> D \<le> 2 powi 500"
    proof (cases "Max (abs ` set wd) = 0")
      case True
      then show ?thesis using one unfolding D_def by simp
    next
      case False
      have "Max (abs ` set wd) \<in> abs ` set wd" using fin by (rule Max_in)
      then obtain v0 where v0: "v0 \<in> set wd" "\<bar>v0\<bar> = Max (abs ` set wd)" by auto
      then have "v0 \<noteq> 0" using False by auto
      moreover have "moderate v0" using m v0(1) by (simp add: list_all_iff)
      ultimately have "2 powi (- 500) \<le> \<bar>v0\<bar> \<and> \<bar>v0\<bar> \<le> 2 powi 500"
        unfolding moderate_def by blast
      then show ?thesis using False v0(2) unfolding D_def by simp
    qed
    then show "2 powi (- 500) \<le> D" and "D \<le> 2 powi 500" by blast+
  qed
qed

lemma point_accuracy:
  assumes m: "list_all moderate (take 500 vs)" and i: "i < min 500 (length vs)"
  shows "\<exists>y. snd (waveform_points_binary64 800 300 vs ! i) = Num y \<and>
             \<bar>y - exact_y (take 500 vs) (vs ! i)\<bar> \<le> 2 powi (- 43)"
proof -
  have ne: "take 500 vs \<noteq> []" using i by auto
  have mem: "vs ! i \<in> set (take 500 vs)"
    using i by (metis length_take nth_mem nth_take min.commute min_less_iff_conj)
  note D = moderate_divisor [OF ne m]
  have mv: "vs ! i = 0 \<or> 2 powi (- 500) \<le> \<bar>vs ! i\<bar>"
    using m mem unfolding moderate_def list_all_iff by blast
  have le: "\<bar>vs ! i\<bar> \<le> (if Max (abs ` set (take 500 vs)) = 0 then 1 else Max (abs ` set (take 500 vs)))"
    using D(4) mem by blast
  show ?thesis
    unfolding waveform_points_binary64_nth [OF i] exact_y_def snd_conv
    by (rule y_accuracy [OF D(2) D(3) D(1) mv le])
qed


lemma exact_y_scaled:
  assumes "0 < c" and "i < min 500 (length vs)"
  shows "exact_y (take 500 (map ((*) c) vs)) (map ((*) c) vs ! i) = exact_y (take 500 vs) (vs ! i)"
proof -
  have ne: "take 500 vs \<noteq> []" using assms(2) by auto
  have mem: "vs ! i \<in> set (take 500 vs)"
    using assms(2) by (metis length_take nth_mem nth_take min.commute min_less_iff_conj)
  have nth: "map ((*) c) vs ! i = c * vs ! i" using assms(2) by simp
  show ?thesis
    unfolding exact_y_def take_map nth
    using scaled_term [OF assms(1) ne mem, of 120] by simp
qed

lemma peak_point:
  assumes nz: "\<exists>v \<in> set (take 500 vs). v \<noteq> 0"
  shows "\<exists>i < min 500 (length vs). \<bar>exact_y (take 500 vs) (vs ! i) - 150\<bar> = 120"
proof -
  define wd where "wd = take 500 vs"
  define M where "M = Max (abs ` set wd)"
  have ne: "wd \<noteq> []" using nz unfolding wd_def by auto
  obtain v0 where v0: "v0 \<in> set wd" "v0 \<noteq> 0" using nz unfolding wd_def by blast
  have "\<bar>v0\<bar> \<le> M" using v0(1) unfolding M_def by simp
  then have Mpos: "0 < M" using v0(2) by linarith
  have "M \<in> abs ` set wd" unfolding M_def using ne by (intro Max_in) simp_all
  then obtain v where v: "v \<in> set wd" "\<bar>v\<bar> = M" by auto
  then obtain i where i: "i < length wd" "wd ! i = v" by (auto simp: in_set_conv_nth)
  have i500: "i < min 500 (length vs)" using i(1) unfolding wd_def by simp
  have vi: "vs ! i = v" using i unfolding wd_def by simp
  have "\<bar>exact_y wd v - 150\<bar> = \<bar>v\<bar> * (120 / M)"
    unfolding exact_y_def M_def [symmetric] using Mpos by (simp add: abs_mult)
  also have "\<dots> = 120" using v(2) Mpos by simp
  finally show ?thesis using i500 vi unfolding wd_def by blast
qed

text \<open>
  Claim C6, amended. On the 800 by 300 canvas, when the first 500 samples and
  their multiples by a positive factor are moderate, so that nothing overflows or
  underflows, the two renderings have as many points and exactly the same \<open>x\<close>
  coordinates, every \<open>y\<close> coordinate is a finite number within \<open>2\<^sup>-\<^sup>4\<^sup>3\<close> of the
  exact value \<open>150 - v * (120 / divisor)\<close>, which is the same for both, and so
  the two \<open>y\<close> coordinates of an index are within \<open>2\<^sup>-\<^sup>4\<^sup>2\<close> of each other.
  When a sample is not zero, some point lies at 80% of the half height from the
  middle line, up to \<open>2\<^sup>-\<^sup>4\<^sup>3\<close>.
\<close>

theorem rendering_scale_invariant_up_to_rounding:
  assumes "0 < c"
    and "list_all moderate (take 500 vs)"
    and "list_all moderate (take 500 (map ((*) c) vs))"
  shows "length (waveform_points_binary64 800 300 (map ((*) c) vs)) =
           length (waveform_points_binary64 800 300 vs) \<and>
         (\<forall>i < min 500 (length vs).
            fst (waveform_points_binary64 800 300 (map ((*) c) vs) ! i) =
              fst (waveform_points_binary64 800 300 vs ! i) \<and>
            (\<exists>y y'. snd (waveform_points_binary64 800 300 vs ! i) = Num y \<and>
                    snd (waveform_points_binary64 800 300 (map ((*) c) vs) ! i) = Num y' \<and>
                    \<bar>y - exact_y (take 500 vs) (vs ! i)\<bar> \<le> 2 powi (- 43) \<and>
                    \<bar>y' - exact_y (take 500 vs) (vs ! i)\<bar> \<le> 2 powi (- 43) \<and>
                    \<bar>y' - y\<bar> \<le> 2 powi (- 42))) \<and>
         ((\<exists>v \<in> set (take 500 vs). v \<noteq> 0) \<longrightarrow>
            (\<exists>i < min 500 (length vs). \<exists>y.
                snd (waveform_points_binary64 800 300 vs ! i) = Num y \<and>
                \<bar>\<bar>y - 150\<bar> - 120\<bar> \<le> 2 powi (- 43)))"
proof -
  have len: "length (waveform_points_binary64 800 300 (map ((*) c) vs)) =
           length (waveform_points_binary64 800 300 vs)"
    by (simp add: length_waveform_points_binary64)
  have two: "(2::real) powi (- 43) + 2 powi (- 43) = 2 powi (- 42)" by simp
  have pt: "fst (waveform_points_binary64 800 300 (map ((*) c) vs) ! i) =
              fst (waveform_points_binary64 800 300 vs ! i) \<and>
            (\<exists>y y'. snd (waveform_points_binary64 800 300 vs ! i) = Num y \<and>
                    snd (waveform_points_binary64 800 300 (map ((*) c) vs) ! i) = Num y' \<and>
                    \<bar>y - exact_y (take 500 vs) (vs ! i)\<bar> \<le> 2 powi (- 43) \<and>
                    \<bar>y' - exact_y (take 500 vs) (vs ! i)\<bar> \<le> 2 powi (- 43) \<and>
                    \<bar>y' - y\<bar> \<le> 2 powi (- 42))"
    if i: "i < min 500 (length vs)" for i
  proof -
    have i': "i < min 500 (length (map ((*) c) vs))" using i by simp
    have x: "fst (waveform_points_binary64 800 300 (map ((*) c) vs) ! i) =
              fst (waveform_points_binary64 800 300 vs ! i)"
      unfolding waveform_points_binary64_nth [OF i] waveform_points_binary64_nth [OF i']
        step_of_binary64_scaled by simp
    obtain y where y: "snd (waveform_points_binary64 800 300 vs ! i) = Num y"
      "\<bar>y - exact_y (take 500 vs) (vs ! i)\<bar> \<le> 2 powi (- 43)"
      using point_accuracy [OF assms(2) i] by blast
    obtain y' where y': "snd (waveform_points_binary64 800 300 (map ((*) c) vs) ! i) = Num y'"
      "\<bar>y' - exact_y (take 500 vs) (vs ! i)\<bar> \<le> 2 powi (- 43)"
      using point_accuracy [OF assms(3) i'] unfolding exact_y_scaled [OF assms(1) i] by blast
    have "\<bar>y' - y\<bar> \<le> 2 powi (- 43) + 2 powi (- 43)" using y(2) y'(2) by linarith
    then have "\<bar>y' - y\<bar> \<le> 2 powi (- 42)" unfolding two .
    then show ?thesis using x y y' by blast
  qed
  have peak: "\<exists>i < min 500 (length vs). \<exists>y.
                snd (waveform_points_binary64 800 300 vs ! i) = Num y \<and>
                \<bar>\<bar>y - 150\<bar> - 120\<bar> \<le> 2 powi (- 43)"
    if nz: "\<exists>v \<in> set (take 500 vs). v \<noteq> 0"
  proof -
    obtain i where i: "i < min 500 (length vs)" "\<bar>exact_y (take 500 vs) (vs ! i) - 150\<bar> = 120"
      using peak_point [OF nz] by blast
    obtain y where y: "snd (waveform_points_binary64 800 300 vs ! i) = Num y"
      "\<bar>y - exact_y (take 500 vs) (vs ! i)\<bar> \<le> 2 powi (- 43)"
      using point_accuracy [OF assms(2) i(1)] by blast
    have "\<bar>\<bar>y - 150\<bar> - 120\<bar> \<le> 2 powi (- 43)" using y(2) i(2) by linarith
    then show ?thesis using i(1) y(1) by blast
  qed
  show ?thesis using len pt peak by blast
qed

theorem rendering_scale_invariant_up_to_rounding_witness:
  "(0::real) < 3 \<and> list_all moderate (take 500 [5, 7]) \<and>
   list_all moderate (take 500 (map ((*) 3) [5, 7])) \<and>
   snd (waveform_points_binary64 800 300 [5, 7] ! 0) = Num (4523704982849829 / 70368744177664) \<and>
   snd (waveform_points_binary64 800 300 (map ((*) 3) [5, 7]) ! 0)
     = Num (1130926245712457 / 17592186044416) \<and>
   \<bar>1130926245712457 / 17592186044416 - 4523704982849829 / 70368744177664 :: real\<bar> \<le> 2 powi (- 42)"
proof -
  have h: "list_all moderate (take 500 [5, 7])" "list_all moderate (take 500 (map ((*) 3) [5, 7]))"
    by (simp_all add: moderate_def)
  have a: "snd (waveform_points_binary64 800 300 (map ((*) 3) [5, 7]) ! 0)
     = Num (1130926245712457 / 17592186044416)"
    using y0_15_21 by simp
  have "\<exists>y y'. snd (waveform_points_binary64 800 300 [5, 7] ! 0) = Num y \<and>
            snd (waveform_points_binary64 800 300 (map ((*) 3) [5, 7]) ! 0) = Num y' \<and>
            \<bar>y' - y\<bar> \<le> 2 powi (- 42)"
  proof -
    have c: "(0::real) < 3" by simp
    have z: "(0::nat) < min 500 (length [5, 7::real])" by simp
    show ?thesis
      using rendering_scale_invariant_up_to_rounding [OF c h] z by blast
  qed
  then have "\<bar>1130926245712457 / 17592186044416 - 4523704982849829 / 70368744177664 :: real\<bar>
      \<le> 2 powi (- 42)"
    unfolding a y0_5_7 by simp
  then show ?thesis using h a y0_5_7 by simp
qed

section \<open>Properties of the detection card\<close>

lemma card_of_comparison:
  "comparison d = Some c \<Longrightarrow> comparison_obj.agreement c = Some b \<Longrightarrow>
   card_class (DetectionCard d) = ''detection-card '' @ (if b then ''agreement'' else ''disagreement'') \<and>
   badge_class (DetectionCard d) = ''agreement-badge '' @ (if b then ''agree'' else ''disagree'') \<and>
   badge_text (DetectionCard d) = (if b then ''Agreement'' else ''Disagreement'')"
  by (simp add: DetectionCard_def Let_def)

lemma card_ignores_models:
  "card_class (DetectionCard (d\<lparr>models := ms\<rparr>)) = card_class (DetectionCard d) \<and>
   badge_class (DetectionCard (d\<lparr>models := ms\<rparr>)) = badge_class (DetectionCard d) \<and>
   badge_text (DetectionCard (d\<lparr>models := ms\<rparr>)) = badge_text (DetectionCard d) \<and>
   comparison_stats (DetectionCard (d\<lparr>models := ms\<rparr>)) = comparison_stats (DetectionCard d)"
  by (simp add: DetectionCard_def Let_def)

lemma stats_iff_diff:
  "(comparison_stats (DetectionCard d) \<noteq> None) =
   (\<exists>c x. comparison d = Some c \<and> comparison_obj.confidence_diff c = Some x)"
  by (simp add: DetectionCard_def Let_def split: option.splits)

lemma toFixed_92: "toFixed 92 (Suc 0) = ''92.0''"
  by (simp add: toFixed_def digit_char_def Let_def)

lemma toFixed_30: "toFixed 30 (Suc 0) = ''30.0''"
  by (simp add: toFixed_def digit_char_def Let_def)

lemma toFixed_62: "toFixed 62 (Suc 0) = ''62.0''"
  by (simp add: toFixed_def digit_char_def Let_def)

lemma toFixed_80: "toFixed 80 0 = ''80''"
  by (simp add: toFixed_def digit_char_def Let_def)

lemma card_scenario_2:
  "DetectionCard scenario_2 =
     \<lparr>card_class = ''detection-card disagreement'', event_text = ''Event: ...'',
      badge_class = ''agreement-badge disagree'',
      badge_text = ''Disagreement'',
      models_comparison =
        [\<lparr>model_heading = ''modelA'',
          status_class = ''detection-status detected'',
          status_text = ''DETECTED'',
          confidence_text = ''Confidence: 92.0%'',
          pick_badges = Some [''P: 80%'']\<rparr>,
         \<lparr>model_heading = ''modelB'',
          status_class = ''detection-status not-detected'',
          status_text = ''No Detection'',
          confidence_text = ''Confidence: 30.0%'', pick_badges = None\<rparr>],
      comparison_stats = Some ''62.0%''\<rparr>"
  by (simp add: scenario_2_def DetectionCard_def model_result_block_def pick_badge_def
        toFixed_92 toFixed_30 toFixed_62 toFixed_80 Let_def)

text \<open>
  Claim C7. The class of the card and the agreement badge are those of
  \<^verbatim>\<open>comparison.agreement\<close> as it is given; they and the confidence difference
  are the same whatever the \<^verbatim>\<open>models\<close> of the event are, so nothing is
  recomputed from the results of the models. The confidence difference is shown
  exactly when \<^verbatim>\<open>comparison.confidence_diff\<close> is present. The event of the second
  scenario gives a card of class disagreement, with the confidences 92.0% and 30.0%
  and the one pick badge \<open>P: 80%\<close>.
\<close>

theorem detection_card_reads_comparison:
  "(comparison d = Some c \<and> comparison_obj.agreement c = Some b \<longrightarrow>
      card_class (DetectionCard d) = ''detection-card '' @ (if b then ''agreement'' else ''disagreement'') \<and>
      badge_class (DetectionCard d) = ''agreement-badge '' @ (if b then ''agree'' else ''disagree'') \<and>
      badge_text (DetectionCard d) = (if b then ''Agreement'' else ''Disagreement'')) \<and>
   card_class (DetectionCard (d\<lparr>models := ms\<rparr>)) = card_class (DetectionCard d) \<and>
   badge_class (DetectionCard (d\<lparr>models := ms\<rparr>)) = badge_class (DetectionCard d) \<and>
   badge_text (DetectionCard (d\<lparr>models := ms\<rparr>)) = badge_text (DetectionCard d) \<and>
   comparison_stats (DetectionCard (d\<lparr>models := ms\<rparr>)) = comparison_stats (DetectionCard d) \<and>
   ((comparison_stats (DetectionCard d) \<noteq> None) =
      (\<exists>c x. comparison d = Some c \<and> comparison_obj.confidence_diff c = Some x)) \<and>
   DetectionCard scenario_2 =
     \<lparr>card_class = ''detection-card disagreement'', event_text = ''Event: ...'',
      badge_class = ''agreement-badge disagree'',
      badge_text = ''Disagreement'',
      models_comparison =
        [\<lparr>model_heading = ''modelA'',
          status_class = ''detection-status detected'',
          status_text = ''DETECTED'',
          confidence_text = ''Confidence: 92.0%'',
          pick_badges = Some [''P: 80%'']\<rparr>,
         \<lparr>model_heading = ''modelB'',
          status_class = ''detection-status not-detected'',
          status_text = ''No Detection'',
          confidence_text = ''Confidence: 30.0%'', pick_badges = None\<rparr>],
      comparison_stats = Some ''62.0%''\<rparr>"
  using card_of_comparison [of d c b] card_ignores_models [of ms d] stats_iff_diff [of d]
    card_scenario_2
  by blast

theorem detection_card_reads_comparison_witness:
  "comparison (scenario_2\<lparr>models := Some
       [(''modelA'', \<lparr>model_result.detected = True, model_result.confidence = 0.92, model_result.picks = None\<rparr>),
        (''modelB'', \<lparr>model_result.detected = True, model_result.confidence = 0.9, model_result.picks = None\<rparr>)]\<rparr>)
     = Some \<lparr>comparison_obj.agreement = Some False, comparison_obj.confidence_diff = Some 0.62\<rparr> \<and>
   comparison_obj.agreement \<lparr>comparison_obj.agreement = Some False, comparison_obj.confidence_diff = Some 0.62\<rparr> = Some False \<and>
   card_class (DetectionCard (scenario_2\<lparr>models := Some
       [(''modelA'', \<lparr>model_result.detected = True, model_result.confidence = 0.92, model_result.picks = None\<rparr>),
        (''modelB'', \<lparr>model_result.detected = True, model_result.confidence = 0.9, model_result.picks = None\<rparr>)]\<rparr>))
     = ''detection-card disagreement''"
  using detection_card_reads_comparison
    [of "scenario_2\<lparr>models := Some
       [(''modelA'', \<lparr>model_result.detected = True, model_result.confidence = 0.92, model_result.picks = None\<rparr>),
        (''modelB'', \<lparr>model_result.detected = True, model_result.confidence = 0.9, model_result.picks = None\<rparr>)]\<rparr>"
      "\<lparr>comparison_obj.agreement = Some False, comparison_obj.confidence_diff = Some 0.62\<rparr>" False]
  by (simp add: scenario_2_def)

text \<open>
  Claim C9. An event without \<^verbatim>\<open>comparison\<close> still gives a card: its class and
  its badge are those of a disagreement, no confidence difference is shown, and
  the blocks of the models are rendered as for any other event.
\<close>

theorem detection_card_without_comparison:
  assumes "comparison d = None"
  shows "card_class (DetectionCard d) = ''detection-card disagreement'' \<and>
         badge_class (DetectionCard d) = ''agreement-badge disagree'' \<and>
         badge_text (DetectionCard d) = ''Disagreement'' \<and>
         comparison_stats (DetectionCard d) = None \<and>
         models_comparison (DetectionCard d) =
           map model_result_block (case models d of None \<Rightarrow> [] | Some m \<Rightarrow> m)"
  using assms by (simp add: DetectionCard_def Let_def)

theorem detection_card_without_comparison_witness:
  "comparison (scenario_2\<lparr>comparison := None\<rparr>) = None \<and>
   card_class (DetectionCard (scenario_2\<lparr>comparison := None\<rparr>)) = ''detection-card disagreement'' \<and>
   comparison_stats (DetectionCard (scenario_2\<lparr>comparison := None\<rparr>)) = None \<and>
   map confidence_text (models_comparison (DetectionCard (scenario_2\<lparr>comparison := None\<rparr>)))
     = [''Confidence: 92.0%'', ''Confidence: 30.0%'']"
  using detection_card_without_comparison [of "scenario_2\<lparr>comparison := None\<rparr>"]
  by (simp add: scenario_2_def model_result_block_def toFixed_92 toFixed_30)

section \<open>Properties of the hourly aggregate\<close>

lemma hour_pos: "0 < hour" by (simp add: hour_def)

lemma time_bucket_hour: "time_bucket hour ts = ts - ts mod hour"
proof -
  have "(ts + hour * (- 48)) div hour = - 48 + ts div hour"
    by (rule div_mult_self2) (simp add: hour_def)
  then have "(ts - 48 * hour) div hour = ts div hour - 48"
    by (simp add: algebra_simps)
  then have "time_bucket hour ts = 48 * hour + (ts div hour - 48) * hour"
    by (simp add: time_bucket_def time_bucket_origin_def)
  also have "\<dots> = ts div hour * hour" by (simp add: algebra_simps)
  also have "\<dots> = ts - ts mod hour" by (simp add: minus_mod_eq_div_mult)
  finally show ?thesis .
qed

lemma time_bucket_hour_bounds:
  "hour dvd time_bucket hour ts \<and> time_bucket hour ts \<le> ts \<and> ts < time_bucket hour ts + hour"
  using hour_pos pos_mod_bound [of hour ts] pos_mod_sign [of hour ts]
  by (simp add: time_bucket_hour dvd_minus_mod)

lemma sum_detected:
  "sum_list (map (\<lambda>r. if detection_record.detected r then 1 else 0) grp)
     = int (length (filter detection_record.detected grp))"
  by (induction grp) simp_all

lemma group_stats_fields:
  assumes "k \<in> set (map group_key rows)"
  defines "grp \<equiv> filter (\<lambda>r. group_key r = k) rows"
  shows "grp \<noteq> []"
    and "bucket (group_stats rows k) = fst k"
    and "hourly_stats.model_name (group_stats rows k) = snd k"
    and "total_detections (group_stats rows k) = int (length grp)"
    and "positive_detections (group_stats rows k) = Some (int (length (filter detection_record.detected grp)))"
    and "avg_confidence (group_stats rows k) =
           Some (sum_list (map detection_record.confidence grp) / real (length grp))"
    and "avg_processing_time (group_stats rows k) =
           Some (sum_list (map processing_time_ms grp) / real (length grp))"
proof -
  show ne: "grp \<noteq> []"
    using assms(1) unfolding grp_def by (auto simp: filter_empty_conv)
  show "bucket (group_stats rows k) = fst k"
    and "hourly_stats.model_name (group_stats rows k) = snd k"
    and "total_detections (group_stats rows k) = int (length grp)"
    by (simp_all add: group_stats_def Let_def sql_COUNT_def grp_def)
  show "positive_detections (group_stats rows k) = Some (int (length (filter detection_record.detected grp)))"
    using ne sum_detected [of grp] by (simp add: group_stats_def Let_def sql_SUM_def grp_def)
  show "avg_confidence (group_stats rows k) =
           Some (sum_list (map detection_record.confidence grp) / real (length grp))"
    and "avg_processing_time (group_stats rows k) =
           Some (sum_list (map processing_time_ms grp) / real (length grp))"
    using ne by (simp_all add: group_stats_def Let_def sql_AVG_def grp_def)
qed

lemma stats_keys:
  "map (\<lambda>s. (bucket s, hourly_stats.model_name s)) (detection_stats_hourly rows)
     = remdups (map group_key rows)"
  by (simp add: detection_stats_hourly_def group_stats_def Let_def o_def)

lemma group_key_eq:
  "(group_key r = (b, m)) =
   (time_bucket hour (created_at r) = b \<and> detection_record.model_name r = m)"
  by (simp add: group_key_def)

lemma stats_row_of_group:
  assumes "s \<in> set (detection_stats_hourly rows)"
  defines "grp \<equiv> filter (\<lambda>r. time_bucket hour (created_at r) = bucket s \<and>
                            detection_record.model_name r = hourly_stats.model_name s) rows"
  shows "grp \<noteq> [] \<and> hour dvd bucket s \<and>
         list_all (\<lambda>r. bucket s \<le> created_at r \<and> created_at r < bucket s + hour) grp \<and>
         total_detections s = int (length grp) \<and>
         positive_detections s = Some (int (length (filter detection_record.detected grp))) \<and>
         avg_confidence s = Some (sum_list (map detection_record.confidence grp) / real (length grp)) \<and>
         avg_processing_time s = Some (sum_list (map processing_time_ms grp) / real (length grp))"
proof -
  obtain k where k: "k \<in> set (map group_key rows)" and s: "s = group_stats rows k"
    using assms(1) by (auto simp: detection_stats_hourly_def)
  have bk: "bucket s = fst k" and mk: "hourly_stats.model_name s = snd k"
    unfolding s using group_stats_fields(2,3) [OF k] by simp_all
  have g: "grp = filter (\<lambda>r. group_key r = k) rows"
    unfolding grp_def bk mk by (cases k) (simp add: group_key_eq)
  obtain r0 where r0: "r0 \<in> set rows" "group_key r0 = k" using k by auto
  have b0: "bucket s = time_bucket hour (created_at r0)"
    using r0(2) bk by (auto simp: group_key_def)
  have dv: "hour dvd bucket s"
    unfolding b0 using time_bucket_hour_bounds by blast
  have inb: "list_all (\<lambda>r. bucket s \<le> created_at r \<and> created_at r < bucket s + hour) grp"
  proof -
    have "bucket s \<le> created_at r \<and> created_at r < bucket s + hour"
      if "time_bucket hour (created_at r) = bucket s" for r
      using time_bucket_hour_bounds [of "created_at r"] unfolding that by blast
    then show ?thesis unfolding grp_def list_all_iff set_filter by blast
  qed
  show ?thesis
    using group_stats_fields [OF k] dv inb unfolding g [symmetric] s [symmetric] by blast
qed

lemma every_row_grouped:
  assumes "r \<in> set rows"
  shows "\<exists>s \<in> set (detection_stats_hourly rows).
           bucket s = time_bucket hour (created_at r) \<and>
           hourly_stats.model_name s = detection_record.model_name r"
proof -
  have k: "group_key r \<in> set (map group_key rows)" using assms by simp
  then have "group_stats rows (group_key r) \<in> set (detection_stats_hourly rows)"
    by (simp add: detection_stats_hourly_def)
  moreover have "bucket (group_stats rows (group_key r)) = time_bucket hour (created_at r)"
    and "hourly_stats.model_name (group_stats rows (group_key r)) = detection_record.model_name r"
    using group_stats_fields(2,3) [OF k] by (simp_all add: group_key_def)
  ultimately show ?thesis by blast
qed

lemma three_rows_one_group:
  assumes "group_key a = group_key b" and "group_key b = group_key c"
    and "detection_record.detected a" and "detection_record.detected b"
    and "\<not> detection_record.detected c"
  shows "\<exists>s. detection_stats_hourly [a, b, c] = [s] \<and>
             bucket s = time_bucket hour (created_at a) \<and>
             hourly_stats.model_name s = detection_record.model_name a \<and>
             total_detections s = 3 \<and> positive_detections s = Some 2"
  using assms
  by (simp add: detection_stats_hourly_def group_stats_def Let_def sql_COUNT_def sql_SUM_def
        group_key_def)

lemma refresh_covering:
  assumes "detection_stats_hourly rows = [s]"
    and "window_start \<le> bucket s" and "bucket s + hour \<le> window_end"
  shows "refresh_continuous_aggregate window_start window_end rows [] = [s]"
  using assms by (simp add: refresh_continuous_aggregate_def in_window_def)

text \<open>
  Claim C8. Every row of \<^verbatim>\<open>detection_stats_hourly\<close> stands for a group of rows
  of the table that is not empty: the rows of one model whose \<^verbatim>\<open>created_at\<close>
  lies in the hour that starts at the bucket. Its \<^verbatim>\<open>total_detections\<close> is the
  number of rows of the group, its \<^verbatim>\<open>positive_detections\<close> the number of those
  with \<^verbatim>\<open>detected\<close> true, and its two averages are the sums over the group
  divided by that number. Every row of the table is in one group, and there is one
  row of the view for each pair of bucket and model. Three rows of one hour and
  model with \<^verbatim>\<open>detected\<close> true, true and false give one row of the view, with
  totals 3 and 2, and a refresh from the empty view over a window that covers the
  bucket materialises exactly that row.
\<close>

theorem detection_stats_hourly_aggregates:
  "(\<forall>s \<in> set (detection_stats_hourly rows).
      (let grp = filter (\<lambda>r. time_bucket hour (created_at r) = bucket s \<and>
                             detection_record.model_name r = hourly_stats.model_name s) rows
       in grp \<noteq> [] \<and> hour dvd bucket s \<and>
          list_all (\<lambda>r. bucket s \<le> created_at r \<and> created_at r < bucket s + hour) grp \<and>
          total_detections s = int (length grp) \<and>
          positive_detections s = Some (int (length (filter detection_record.detected grp))) \<and>
          avg_confidence s = Some (sum_list (map detection_record.confidence grp) / real (length grp)) \<and>
          avg_processing_time s = Some (sum_list (map processing_time_ms grp) / real (length grp)))) \<and>
   (\<forall>r \<in> set rows. \<exists>s \<in> set (detection_stats_hourly rows).
      bucket s = time_bucket hour (created_at r) \<and>
      hourly_stats.model_name s = detection_record.model_name r) \<and>
   distinct (map (\<lambda>s. (bucket s, hourly_stats.model_name s)) (detection_stats_hourly rows)) \<and>
   (time_bucket hour (created_at a) = time_bucket hour (created_at b) \<and>
    time_bucket hour (created_at b) = time_bucket hour (created_at c) \<and>
    detection_record.model_name a = detection_record.model_name b \<and>
    detection_record.model_name b = detection_record.model_name c \<and>
    detection_record.detected a \<and> detection_record.detected b \<and> \<not> detection_record.detected c \<longrightarrow>
    (\<exists>s. detection_stats_hourly [a, b, c] = [s] \<and>
         bucket s = time_bucket hour (created_at a) \<and>
         hourly_stats.model_name s = detection_record.model_name a \<and>
         total_detections s = 3 \<and> positive_detections s = Some 2 \<and>
         (\<forall>window_start window_end.
            window_start \<le> bucket s \<and> bucket s + hour \<le> window_end \<longrightarrow>
            refresh_continuous_aggregate window_start window_end [a, b, c] [] = [s])))"
proof -
  have one: "\<forall>s \<in> set (detection_stats_hourly rows).
      (let grp = filter (\<lambda>r. time_bucket hour (created_at r) = bucket s \<and>
                             detection_record.model_name r = hourly_stats.model_name s) rows
       in grp \<noteq> [] \<and> hour dvd bucket s \<and>
          list_all (\<lambda>r. bucket s \<le> created_at r \<and> created_at r < bucket s + hour) grp \<and>
          total_detections s = int (length grp) \<and>
          positive_detections s = Some (int (length (filter detection_record.detected grp))) \<and>
          avg_confidence s = Some (sum_list (map detection_record.confidence grp) / real (length grp)) \<and>
          avg_processing_time s = Some (sum_list (map processing_time_ms grp) / real (length grp)))"
    unfolding Let_def using stats_row_of_group [of _ rows] by blast
  have two: "\<forall>r \<in> set rows. \<exists>s \<in> set (detection_stats_hourly rows).
      bucket s = time_bucket hour (created_at r) \<and>
      hourly_stats.model_name s = detection_record.model_name r"
    using every_row_grouped [of _ rows] by blast
  have three: "distinct (map (\<lambda>s. (bucket s, hourly_stats.model_name s)) (detection_stats_hourly rows))"
    unfolding stats_keys by simp
  have four: "\<exists>s. detection_stats_hourly [a, b, c] = [s] \<and>
         bucket s = time_bucket hour (created_at a) \<and>
         hourly_stats.model_name s = detection_record.model_name a \<and>
         total_detections s = 3 \<and> positive_detections s = Some 2 \<and>
         (\<forall>window_start window_end.
            window_start \<le> bucket s \<and> bucket s + hour \<le> window_end \<longrightarrow>
            refresh_continuous_aggregate window_start window_end [a, b, c] [] = [s])"
    if h: "time_bucket hour (created_at a) = time_bucket hour (created_at b)"
      "time_bucket hour (created_at b) = time_bucket hour (created_at c)"
      "detection_record.model_name a = detection_record.model_name b"
      "detection_record.model_name b = detection_record.model_name c"
      "detection_record.detected a" "detection_record.detected b" "\<not> detection_record.detected c"
  proof -
    have k: "group_key a = group_key b" "group_key b = group_key c"
      using h by (simp_all add: group_key_def)
    obtain s where s: "detection_stats_hourly [a, b, c] = [s]"
      "bucket s = time_bucket hour (created_at a)"
      "hourly_stats.model_name s = detection_record.model_name a"
      "total_detections s = 3" "positive_detections s = Some 2"
      using three_rows_one_group [OF k h(5,6,7)] by blast
    have "\<forall>window_start window_end.
            window_start \<le> bucket s \<and> bucket s + hour \<le> window_end \<longrightarrow>
            refresh_continuous_aggregate window_start window_end [a, b, c] [] = [s]"
      using refresh_covering [OF s(1)] by blast
    with s show ?thesis by blast
  qed
  show ?thesis
    using one two three four by blast
qed

theorem detection_stats_hourly_aggregates_witness:
  "detection_stats_hourly scenario_3 =
     [\<lparr>bucket = 100 * hour, hourly_stats.model_name = ''modelA'', total_detections = 3,
       positive_detections = Some 2, avg_confidence = Some (3 / 5),
       avg_processing_time = Some 20\<rparr>] \<and>
   refresh_continuous_aggregate (100 * hour) (101 * hour) scenario_3 [] =
     detection_stats_hourly scenario_3"
proof -
  have v: "detection_stats_hourly scenario_3 =
     [\<lparr>bucket = 100 * hour, hourly_stats.model_name = ''modelA'', total_detections = 3,
       positive_detections = Some 2, avg_confidence = Some (3 / 5),
       avg_processing_time = Some 20\<rparr>]"
    by (simp add: scenario_3_def detection_stats_hourly_def group_stats_def group_key_def
          time_bucket_def time_bucket_origin_def hour_def sql_COUNT_def sql_SUM_def sql_AVG_def Let_def)
  have r: "refresh_continuous_aggregate (100 * hour) (101 * hour) scenario_3 [] =
     detection_stats_hourly scenario_3"
    unfolding refresh_continuous_aggregate_def v by (simp add: in_window_def)
  show ?thesis
    using detection_stats_hourly_aggregates [of scenario_3 "scenario_3 ! 0" "scenario_3 ! 1" "scenario_3 ! 2"]
      v r by simp
qed

end
